theory Spec2Isabelle
  imports Main "HOL-Library.AList" "HOL-Library.List_Lexorder" "HOL-Library.Char_ord"
    "HOL-Library.Sublist"
begin

section \<open>Paths: the part of path/filepath that the driver calls\<close>

text \<open>
  The driver builds every path with \<open>filepath.Join\<close> and by appending the suffixes
  \<open>.json\<close> and \<open>.tmp\<close>. \<open>Join\<close> drops leading empty elements, joins the rest with
  the separator and cleans the result lexically (Unix flavour: the separator is \<open>/\<close>).
  \<open>Clean\<close> is modelled on the list of path elements: an empty element and \<open>.\<close> are
  skipped, \<open>..\<close> removes the element before it (it is kept at the front of a relative
  path and dropped at the root), and an empty result is \<open>.\<close>.
\<close>

type_synonym path = string

fun split_sep :: "string \<Rightarrow> string list" where
  "split_sep [] = [Nil]"
| "split_sep (c # cs) =
     (if c = CHR ''/'' then [] # split_sep cs
      else (case split_sep cs of [] \<Rightarrow> [c # Nil] | x # xs \<Rightarrow> (c # x) # xs))"

fun join_sep :: "string list \<Rightarrow> string" where
  "join_sep [] = []"
| "join_sep [x] = x"
| "join_sep (x # y # ys) = x @ ''/'' @ join_sep (y # ys)"

definition is_rooted :: "path \<Rightarrow> bool" where
  "is_rooted p = (case p of [] \<Rightarrow> False | c # _ \<Rightarrow> c = CHR ''/'')"

text \<open>One element of the input, applied to the elements written so far (last one first).\<close>

definition clean_elem :: "bool \<Rightarrow> string list \<Rightarrow> string \<Rightarrow> string list" where
  "clean_elem rooted out e =
     (if e = [] \<or> e = ''.'' then out
      else if e = ''..'' then
        (case out of
           [] \<Rightarrow> if rooted then [] else [''..'']
         | t # rest \<Rightarrow> if \<not> rooted \<and> t = ''..'' then ''..'' # out else rest)
      else e # out)"

definition clean_elems :: "bool \<Rightarrow> string list \<Rightarrow> string list" where
  "clean_elems rooted es = rev (foldl (clean_elem rooted) [] es)"

definition render :: "bool \<Rightarrow> string list \<Rightarrow> path" where
  "render rooted out =
     (if rooted then ''/'' @ join_sep out
      else if out = [] then ''.'' else join_sep out)"

definition Clean :: "path \<Rightarrow> path" where
  "Clean p =
     (if p = [] then ''.''
      else render (is_rooted p) (clean_elems (is_rooted p) (split_sep p)))"

definition Join :: "string list \<Rightarrow> path" where
  "Join elem =
     (case dropWhile (\<lambda>e. e = []) elem of
        [] \<Rightarrow> []
      | es \<Rightarrow> Clean (join_sep es))"


section \<open>Errors\<close>

text \<open>
  The driver returns three kinds of error value: its own \<open>fmt.Errorf\<close> messages, the
  errors of the \<open>os\<close> package (a \<open>PathError\<close> or, from \<open>os.Rename\<close>, a \<open>LinkError\<close>,
  each around an errno), and whatever \<open>encoding/json\<close> returns.
\<close>

datatype errno = ENOENT | ENOTDIR | EISDIR | EEXIST | EINVAL | ENXIO | EBUSY

datatype error =
    Errorf string
  | PathError string path errno
  | LinkError string path path errno
  | JsonError string

fun IsNotExist :: "error \<Rightarrow> bool" where
  "IsNotExist (PathError _ _ e) = (e = ENOENT)"
| "IsNotExist (LinkError _ _ _ e) = (e = ENOENT)"
| "IsNotExist _ = False"

text \<open>The error classes that the specification names, as predicates on the values above.\<close>

definition is_InvalidArgument :: "error \<Rightarrow> bool" where
  "is_InvalidArgument e = (e = Errorf ''Missing collection'' \<or> e = Errorf ''Missing resource'')"

fun is_NotFound :: "error \<Rightarrow> bool" where
  "is_NotFound (Errorf msg) = prefix ''Unable to find file or directory named '' msg"
| "is_NotFound e = IsNotExist e"

section \<open>The file system\<close>

text \<open>
  The file system is a table from path strings to nodes; a node is a directory, a regular
  file with its contents, or a socket (a file that is neither a directory nor regular).
  The root directory \<open>/\<close> and the working directory \<open>.\<close> always exist and are not
  entries of the table. A path is resolved as the operating system does it: every proper
  prefix that ends before a separator must be a directory; a missing one gives
  \<open>ENOENT\<close>, a file in that place gives \<open>ENOTDIR\<close>. A path of one element lies in
  \<open>/\<close> or in \<open>.\<close>. Paths are compared as the cleaned strings that the driver builds;
  permissions, links and the meaning of \<open>..\<close> are outside the model.
\<close>

datatype node = Dir | Regular string | Socket

type_synonym filesystem = "(path \<times> node) list"

datatype FileMode = ModeDir | ModeRegular | ModeSocket

fun IsDir :: "FileMode \<Rightarrow> bool" where
  "IsDir ModeDir = True"
| "IsDir _ = False"

fun IsRegular :: "FileMode \<Rightarrow> bool" where
  "IsRegular ModeRegular = True"
| "IsRegular _ = False"

datatype FileInfo = FileInfo (Name: string) (Mode: FileMode)

definition base :: "path \<Rightarrow> string" where
  "base p = last (split_sep p)"

text \<open>The name in a file-info is the last element of the path; the root is named \<open>/\<close>.\<close>

definition info_name :: "path \<Rightarrow> string" where
  "info_name p = (if p = ''/'' then ''/'' else base p)"

fun file_info :: "path \<Rightarrow> node \<Rightarrow> FileInfo" where
  "file_info p Dir = FileInfo (info_name p) ModeDir"
| "file_info p (Regular _) = FileInfo (info_name p) ModeRegular"
| "file_info p Socket = FileInfo (info_name p) ModeSocket"

definition node_at :: "filesystem \<Rightarrow> path \<Rightarrow> node option" where
  "node_at fs p = (if p = ''/'' \<or> p = ''.'' then Some Dir else map_of fs p)"

definition ancestors :: "path \<Rightarrow> path list" where
  "ancestors p = map (\<lambda>j. take j p) (filter (\<lambda>j. p ! j = CHR ''/'') [1..<length p])"

fun walk :: "filesystem \<Rightarrow> path list \<Rightarrow> errno option" where
  "walk fs [] = None"
| "walk fs (a # as) =
     (case node_at fs a of
        None \<Rightarrow> Some ENOENT
      | Some Dir \<Rightarrow> walk fs as
      | Some _ \<Rightarrow> Some ENOTDIR)"

text \<open>
  The paths that lie beneath a directory, at any depth: in \<open>/\<close> every other absolute
  path, in \<open>.\<close> every relative path that does not start with \<open>..\<close>, and in any other
  directory the paths that continue it after a separator.
\<close>

definition dir_prefix :: "path \<Rightarrow> string" where
  "dir_prefix d = (if d = ''/'' then ''/'' else if d = ''.'' then [] else d @ ''/'')"

definition beneath :: "path \<Rightarrow> path \<Rightarrow> bool" where
  "beneath d p =
     (if d = ''/'' then strict_prefix ''/'' p
      else if d = ''.'' then
        p \<noteq> [] \<and> \<not> is_rooted p \<and> p \<noteq> ''.'' \<and> p \<noteq> ''..'' \<and> \<not> prefix ''../'' p
      else strict_prefix (d @ ''/'') p)"

definition os_Stat :: "filesystem \<Rightarrow> path \<Rightarrow> error + FileInfo" where
  "os_Stat fs p =
     (case walk fs (ancestors p) of
        Some e \<Rightarrow> Inl (PathError ''stat'' p e)
      | None \<Rightarrow>
          (case node_at fs p of
             None \<Rightarrow> Inl (PathError ''stat'' p ENOENT)
           | Some n \<Rightarrow> Inr (file_info p n)))"

definition os_Mkdir :: "filesystem \<Rightarrow> path \<Rightarrow> error + filesystem" where
  "os_Mkdir fs p =
     (case walk fs (ancestors p) of
        Some e \<Rightarrow> Inl (PathError ''mkdir'' p e)
      | None \<Rightarrow>
          (case node_at fs p of
             Some _ \<Rightarrow> Inl (PathError ''mkdir'' p EEXIST)
           | None \<Rightarrow> Inr (AList.update p Dir fs)))"

text \<open>
  \<open>os.MkdirAll\<close>: a directory at the path is success, anything else there is an error;
  otherwise the parent is made first (when the path has one) and the path itself last.
  The list is the path followed by its ancestors, nearest first.
\<close>

fun MkdirAll_up :: "filesystem \<Rightarrow> path list \<Rightarrow> error + filesystem" where
  "MkdirAll_up fs [] = Inr fs"
| "MkdirAll_up fs (p # ups) =
     (case os_Stat fs p of
        Inr fi \<Rightarrow> if IsDir (Mode fi) then Inr fs else Inl (PathError ''mkdir'' p ENOTDIR)
      | Inl _ \<Rightarrow>
          (case MkdirAll_up fs ups of
             Inl e \<Rightarrow> Inl e
           | Inr fs' \<Rightarrow> os_Mkdir fs' p))"

definition os_MkdirAll :: "filesystem \<Rightarrow> path \<Rightarrow> error + filesystem" where
  "os_MkdirAll fs p = MkdirAll_up fs (p # rev (ancestors p))"

text \<open>\<open>ioutil.WriteFile\<close>: create or truncate the file, then write the bytes.\<close>

definition ioutil_WriteFile :: "filesystem \<Rightarrow> path \<Rightarrow> string \<Rightarrow> error + filesystem" where
  "ioutil_WriteFile fs p b =
     (case walk fs (ancestors p) of
        Some e \<Rightarrow> Inl (PathError ''open'' p e)
      | None \<Rightarrow>
          (case node_at fs p of
             Some Dir \<Rightarrow> Inl (PathError ''open'' p EISDIR)
           | Some Socket \<Rightarrow> Inl (PathError ''open'' p ENXIO)
           | _ \<Rightarrow> Inr (AList.update p (Regular b) fs)))"

definition ioutil_ReadFile :: "filesystem \<Rightarrow> path \<Rightarrow> error + string" where
  "ioutil_ReadFile fs p =
     (case walk fs (ancestors p) of
        Some e \<Rightarrow> Inl (PathError ''open'' p e)
      | None \<Rightarrow>
          (case node_at fs p of
             None \<Rightarrow> Inl (PathError ''open'' p ENOENT)
           | Some Dir \<Rightarrow> Inl (PathError ''read'' p EISDIR)
           | Some Socket \<Rightarrow> Inl (PathError ''open'' p ENXIO)
           | Some (Regular b) \<Rightarrow> Inr b))"

text \<open>
  \<open>ioutil.ReadDir\<close>: the entries directly inside a directory, sorted by file name.
\<close>

definition entry_name :: "path \<Rightarrow> path \<Rightarrow> string option" where
  "entry_name d p =
     (if beneath d p \<and> CHR ''/'' \<notin> set (drop (length (dir_prefix d)) p)
      then Some (drop (length (dir_prefix d)) p) else None)"

definition dir_entries :: "filesystem \<Rightarrow> path \<Rightarrow> FileInfo list" where
  "dir_entries fs d =
     sort_key Name
       (List.map_filter
          (\<lambda>(p, n). if entry_name d p = None then None else Some (file_info p n)) fs)"

definition ioutil_ReadDir :: "filesystem \<Rightarrow> path \<Rightarrow> error + FileInfo list" where
  "ioutil_ReadDir fs d =
     (case walk fs (ancestors d) of
        Some e \<Rightarrow> Inl (PathError ''open'' d e)
      | None \<Rightarrow>
          (case node_at fs d of
             None \<Rightarrow> Inl (PathError ''open'' d ENOENT)
           | Some (Regular _) \<Rightarrow> Inl (PathError ''readdirent'' d ENOTDIR)
           | Some Socket \<Rightarrow> Inl (PathError ''open'' d ENXIO)
           | Some Dir \<Rightarrow> Inr (dir_entries fs d)))"

text \<open>
  \<open>os.Rename\<close>. Go looks at the new name first: when it is a directory, the error is
  the one of the old name if that cannot be found, and \<open>EEXIST\<close> otherwise. In every
  other case the system call decides: the old path must exist; a file takes the place of
  a file or of nothing; a directory takes the place of nothing and moves with everything
  in it, but not into itself.
\<close>

definition missing :: "filesystem \<Rightarrow> path \<Rightarrow> errno option" where
  "missing fs p =
     (case walk fs (ancestors p) of
        Some e \<Rightarrow> Some e
      | None \<Rightarrow> (case node_at fs p of None \<Rightarrow> Some ENOENT | Some _ \<Rightarrow> None))"

definition moved :: "path \<Rightarrow> path \<Rightarrow> path \<Rightarrow> path" where
  "moved old new p =
     (if p = old then new
      else if beneath old p then new @ drop (length old) p
      else p)"

definition move_tree :: "filesystem \<Rightarrow> path \<Rightarrow> path \<Rightarrow> filesystem" where
  "move_tree fs old new =
     map (\<lambda>(p, n). (moved old new p, n)) (filter (\<lambda>(p, n). p \<noteq> new) fs)"

definition syscall_Rename :: "filesystem \<Rightarrow> path \<Rightarrow> path \<Rightarrow> error + filesystem" where
  "syscall_Rename fs old new =
     (case walk fs (ancestors old) of
        Some e \<Rightarrow> Inl (LinkError ''rename'' old new e)
      | None \<Rightarrow>
     (case node_at fs old of
        None \<Rightarrow> Inl (LinkError ''rename'' old new ENOENT)
      | Some n \<Rightarrow>
     (case walk fs (ancestors new) of
        Some e \<Rightarrow> Inl (LinkError ''rename'' old new e)
      | None \<Rightarrow>
          if old = new then Inr fs
          else if old = ''/'' \<or> old = ''.'' then Inl (LinkError ''rename'' old new EBUSY)
          else
            (case n of
               Dir \<Rightarrow>
                 if beneath old new then Inl (LinkError ''rename'' old new EINVAL)
                 else
                   (case node_at fs new of
                      Some _ \<Rightarrow> Inl (LinkError ''rename'' old new ENOTDIR)
                    | None \<Rightarrow> Inr (move_tree fs old new))
             | _ \<Rightarrow> Inr (AList.update new n (AList.delete old fs))))))"

definition os_Rename :: "filesystem \<Rightarrow> path \<Rightarrow> path \<Rightarrow> error + filesystem" where
  "os_Rename fs old new =
     (if walk fs (ancestors new) = None \<and> node_at fs new = Some Dir then
        (case missing fs old of
           Some e \<Rightarrow> Inl (LinkError ''rename'' old new e)
         | None \<Rightarrow> Inl (LinkError ''rename'' old new EEXIST))
      else syscall_Rename fs old new)"

text \<open>
  \<open>os.RemoveAll\<close> gives the error it returns and the file system it leaves. It refuses
  a path whose last element is \<open>.\<close>; a path that does not exist (and the empty path) is
  success; a path that runs through a file is an error; a file is removed; a directory is removed with everything beneath it, except
  that \<open>/\<close> itself stays and the call fails after it has emptied it.
\<close>

definition endsWithDot :: "path \<Rightarrow> bool" where
  "endsWithDot p = (p = ''.'' \<or> suffix ''/.'' p)"

definition os_RemoveAll :: "filesystem \<Rightarrow> path \<Rightarrow> error option \<times> filesystem" where
  "os_RemoveAll fs p =
     (if p = [] then (None, fs)
      else if endsWithDot p then (Some (PathError ''RemoveAll'' p EINVAL), fs)
      else
        (case walk fs (ancestors p) of
           Some ENOENT \<Rightarrow> (None, fs)
         | Some e \<Rightarrow> (Some (PathError ''unlinkat'' p e), fs)
         | None \<Rightarrow>
             (case node_at fs p of
                None \<Rightarrow> (None, fs)
              | Some Dir \<Rightarrow>
                  if p = ''/''
                  then (Some (PathError ''unlinkat'' p EBUSY),
                        filter (\<lambda>(q, n). \<not> beneath p q) fs)
                  else (None, filter (\<lambda>(q, n). q \<noteq> p \<and> \<not> beneath p q) fs)
              | Some _ \<Rightarrow> (None, AList.delete p fs))))"

section \<open>The driver\<close>

text \<open>
  A \<open>Driver\<close> holds its directory and the map from collection names to mutexes; the
  mutex \<open>d.mutex\<close> that guards this map is \<open>RegistryMutex\<close>, and a collection's
  mutex is named by the address it was allocated at. The state passed through every
  method is the driver together with the file system, the allocator and the sequence of
  lock operations and file-system calls made so far, in order.
\<close>

datatype mutex = RegistryMutex | CollectionMutex nat

datatype event =
    Lock mutex
  | Unlock mutex
  | Stat path
  | MkdirAll path
  | WriteFile path string
  | Rename path path
  | ReadFile path
  | ReadDir path
  | RemoveAll path
  | Debug string

record state =
  dir :: path
  mutexes :: "(string \<times> nat) list"
  allocated :: nat
  files :: filesystem
  trace :: "event list"

text \<open>
  \<open>encoding/json\<close> is taken as a parameter: \<open>MarshalIndent v prefix indent\<close> gives the
  bytes or an error, \<open>Unmarshal b out\<close> decodes into the value that \<open>out\<close> points to.
\<close>

record 'v codec =
  MarshalIndent :: "'v \<Rightarrow> string \<Rightarrow> string \<Rightarrow> error + string"
  Unmarshal :: "string \<Rightarrow> 'v \<Rightarrow> error + 'v"

text \<open>
  Every lock operation and every call into \<open>os\<close> and \<open>ioutil\<close> is recorded when it is
  made, whether it succeeds or not; a call that changes the file system installs the new
  table when it succeeds. The two \<open>Debug\<close> calls of \<open>New\<close> are recorded by their
  message, without the formatted directory.
\<close>

definition emit :: "event \<Rightarrow> state \<Rightarrow> state" where
  "emit e s = s\<lparr>trace := trace s @ [e]\<rparr>"

definition sys_read :: "event \<Rightarrow> (filesystem \<Rightarrow> error + 'a) \<Rightarrow> state \<Rightarrow> (error + 'a) \<times> state" where
  "sys_read e f s = (f (files s), emit e s)"

definition sys_write :: "event \<Rightarrow> (filesystem \<Rightarrow> error + filesystem) \<Rightarrow> state \<Rightarrow> (error + unit) \<times> state" where
  "sys_write e f s =
     (case f (files s) of
        Inl err \<Rightarrow> (Inl err, emit e s)
      | Inr fs' \<Rightarrow> (Inr (), emit e (s\<lparr>files := fs'\<rparr>)))"

text \<open>A call that may change the file system and fail as well.\<close>

definition sys_change :: "event \<Rightarrow> (filesystem \<Rightarrow> error option \<times> filesystem) \<Rightarrow> state \<Rightarrow> (error + unit) \<times> state" where
  "sys_change e f s =
     (case f (files s) of
        (None, fs') \<Rightarrow> (Inr (), emit e (s\<lparr>files := fs'\<rparr>))
      | (Some err, fs') \<Rightarrow> (Inl err, emit e (s\<lparr>files := fs'\<rparr>)))"

definition stat :: "path \<Rightarrow> state \<Rightarrow> (error + FileInfo) \<times> state" where
  "stat path s =
     (case sys_read (Stat path) (\<lambda>fs. os_Stat fs path) s of
        (Inl err, s1) \<Rightarrow>
          if IsNotExist err
          then sys_read (Stat (path @ ''.json'')) (\<lambda>fs. os_Stat fs (path @ ''.json'')) s1
          else (Inl err, s1)
      | (Inr fi, s1) \<Rightarrow> (Inr fi, s1))"

definition getOrCreateMutex :: "string \<Rightarrow> state \<Rightarrow> nat \<times> state" where
  "getOrCreateMutex collection s =
     (let s1 = emit (Lock RegistryMutex) s in
      case map_of (mutexes s1) collection of
        Some m \<Rightarrow> (m, emit (Unlock RegistryMutex) s1)
      | None \<Rightarrow>
          (let m = allocated s1;
               s2 = s1\<lparr>allocated := Suc m, mutexes := (collection, m) # mutexes s1\<rparr>
           in (m, emit (Unlock RegistryMutex) s2)))"

text \<open>
  \<open>mutex := d.getOrCreateMutex(collection); mutex.Lock(); defer mutex.Unlock()\<close>
  around the rest of a method.
\<close>

definition locked :: "string \<Rightarrow> (state \<Rightarrow> (error + 'a) \<times> state) \<Rightarrow> state \<Rightarrow> (error + 'a) \<times> state" where
  "locked collection body s =
     (case getOrCreateMutex collection s of
        (m, s1) \<Rightarrow>
          (case body (emit (Lock (CollectionMutex m)) s1) of
             (r, s2) \<Rightarrow> (r, emit (Unlock (CollectionMutex m)) s2)))"

definition New :: "path \<Rightarrow> filesystem \<Rightarrow> (error + unit) \<times> state" where
  "New dir0 fs =
     (let driver = \<lparr>dir = Clean dir0, mutexes = [], allocated = 0, files = fs, trace = []\<rparr> in
      case stat (dir driver) driver of
        (Inr _, s1) \<Rightarrow> (Inr (), emit (Debug ''Database is already exists'') s1)
      | (Inl _, s1) \<Rightarrow>
          sys_write (MkdirAll (dir driver)) (\<lambda>fs. os_MkdirAll fs (dir driver))
            (emit (Debug ''Creating the database'') s1))"

definition Write :: "'v codec \<Rightarrow> string \<Rightarrow> string \<Rightarrow> 'v \<Rightarrow> state \<Rightarrow> (error + unit) \<times> state" where
  "Write cdc collection resource v s =
     (if collection = [] then (Inl (Errorf ''Missing collection''), s)
      else if resource = [] then (Inl (Errorf ''Missing resource''), s)
      else locked collection (\<lambda>s.
        let dir' = Join [dir s, collection];
            fnlPath = Join [dir', resource @ ''.json''];
            tmpPath = fnlPath @ ''.tmp''
        in case sys_write (MkdirAll dir') (\<lambda>fs. os_MkdirAll fs dir') s of
             (Inl err, s1) \<Rightarrow> (Inl err, s1)
           | (Inr _, s1) \<Rightarrow>
               (case MarshalIndent cdc v [] [CHR 0x09] of
                  Inl err \<Rightarrow> (Inl err, s1)
                | Inr b \<Rightarrow>
                    (case sys_write (WriteFile tmpPath (b @ [CHR 0x0A]))
                            (\<lambda>fs. ioutil_WriteFile fs tmpPath (b @ [CHR 0x0A])) s1 of
                       (Inl err, s2) \<Rightarrow> (Inl err, s2)
                     | (Inr _, s2) \<Rightarrow>
                         sys_write (Rename tmpPath fnlPath)
                           (\<lambda>fs. os_Rename fs tmpPath fnlPath) s2))) s)"

definition Read :: "'v codec \<Rightarrow> string \<Rightarrow> string \<Rightarrow> 'v \<Rightarrow> state \<Rightarrow> (error + 'v) \<times> state" where
  "Read cdc collection resource v s =
     (if collection = [] then (Inl (Errorf ''Missing collection''), s)
      else if resource = [] then (Inl (Errorf ''Missing resource''), s)
      else
        (let record' = Join [dir s, collection, resource]
         in case stat record' s of
              (Inl err, s1) \<Rightarrow> (Inl err, s1)
            | (Inr _, s1) \<Rightarrow>
                (case sys_read (ReadFile (record' @ ''.json''))
                        (\<lambda>fs. ioutil_ReadFile fs (record' @ ''.json'')) s1 of
                   (Inl err, s2) \<Rightarrow> (Inl err, s2)
                 | (Inr b, s2) \<Rightarrow> (Unmarshal cdc b v, s2))))"

text \<open>The loop of \<open>ReadAll\<close> over the directory entries, with the records read so far.\<close>

fun read_records :: "path \<Rightarrow> FileInfo list \<Rightarrow> string list \<Rightarrow> state \<Rightarrow> (error + string list) \<times> state" where
  "read_records dir' [] records s = (Inr records, s)"
| "read_records dir' (file # files') records s =
     (case sys_read (ReadFile (Join [dir', Name file]))
             (\<lambda>fs. ioutil_ReadFile fs (Join [dir', Name file])) s of
        (Inl err, s1) \<Rightarrow> (Inl err, s1)
      | (Inr b, s1) \<Rightarrow> read_records dir' files' (records @ [b]) s1)"

definition ReadAll :: "string \<Rightarrow> state \<Rightarrow> (error + string list) \<times> state" where
  "ReadAll collection s =
     (if collection = [] then (Inl (Errorf ''Missing collection''), s)
      else
        (let dir' = Join [dir s, collection]
         in case stat dir' s of
              (Inl err, s1) \<Rightarrow> (Inl err, s1)
            | (Inr _, s1) \<Rightarrow>
                (case sys_read (ReadDir dir') (\<lambda>fs. ioutil_ReadDir fs dir') s1 of
                   (r, s2) \<Rightarrow>
                     read_records dir' (case r of Inl _ \<Rightarrow> [] | Inr fis \<Rightarrow> fis) [] s2)))"

definition Update :: "'v codec \<Rightarrow> string \<Rightarrow> string \<Rightarrow> 'v \<Rightarrow> state \<Rightarrow> (error + unit) \<times> state" where
  "Update cdc collection resource v s =
     (if collection = [] then (Inl (Errorf ''Missing collection''), s)
      else if resource = [] then (Inl (Errorf ''Missing resource''), s)
      else locked collection (\<lambda>s.
        let dir' = Join [dir s, collection, resource @ ''.json'']
        in case stat dir' s of
             (Inl err, s1) \<Rightarrow> (Inl err, s1)
           | (Inr _, s1) \<Rightarrow>
               (case MarshalIndent cdc v [] [CHR 0x09] of
                  Inl err \<Rightarrow> (Inl err, s1)
                | Inr b \<Rightarrow>
                    sys_write (WriteFile dir' (b @ [CHR 0x0A]))
                      (\<lambda>fs. ioutil_WriteFile fs dir' (b @ [CHR 0x0A])) s1)) s)"

definition Delete :: "string \<Rightarrow> string \<Rightarrow> state \<Rightarrow> (error + unit) \<times> state" where
  "Delete collection resource s =
     (let path = Join [collection, resource]
      in locked collection (\<lambda>s.
        let dir' = Join [dir s, path]
        in case stat dir' s of
             (Inl _, s1) \<Rightarrow>
               (Inl (Errorf (''Unable to find file or directory named '' @ path)), s1)
           | (Inr fi, s1) \<Rightarrow>
               if IsDir (Mode fi)
               then sys_change (RemoveAll dir') (\<lambda>fs. os_RemoveAll fs dir') s1
               else if IsRegular (Mode fi)
               then sys_change (RemoveAll (dir' @ ''.json''))
                      (\<lambda>fs. os_RemoveAll fs (dir' @ ''.json'')) s1
               else (Inr (), s1)) s)"

text \<open>A caller's sequence of method calls, each run for its effect on the state.\<close>

datatype 'v call =
    CallWrite string string 'v
  | CallRead string string 'v
  | CallReadAll string
  | CallUpdate string string 'v
  | CallDelete string string

fun run_call :: "'v codec \<Rightarrow> state \<Rightarrow> 'v call \<Rightarrow> state" where
  "run_call cdc s (CallWrite c r v) = snd (Write cdc c r v s)"
| "run_call cdc s (CallRead c r v) = snd (Read cdc c r v s)"
| "run_call cdc s (CallReadAll c) = snd (ReadAll c s)"
| "run_call cdc s (CallUpdate c r v) = snd (Update cdc c r v s)"
| "run_call cdc s (CallDelete c r) = snd (Delete c r s)"

definition run_calls :: "'v codec \<Rightarrow> state \<Rightarrow> 'v call list \<Rightarrow> state" where
  "run_calls cdc s cs = foldl (run_call cdc) s cs"

text \<open>
  A small instance of the codec for concrete runs: the JSON literals \<open>true\<close>, \<open>false\<close>
  and \<open>null\<close>, and a channel, which \<open>encoding/json\<close> refuses to encode.
\<close>

datatype doc = DTrue | DFalse | DNull | DChan

definition doc_codec :: "doc codec" where
  "doc_codec =
     \<lparr>MarshalIndent = (\<lambda>v prefix indent.
        case v of
          DTrue \<Rightarrow> Inr ''true''
        | DFalse \<Rightarrow> Inr ''false''
        | DNull \<Rightarrow> Inr ''null''
        | DChan \<Rightarrow> Inl (JsonError ''json: unsupported type: chan int'')),
      Unmarshal = (\<lambda>b out.
        if b = ''true'' @ [CHR 0x0A] then Inr DTrue
        else if b = ''false'' @ [CHR 0x0A] then Inr DFalse
        else if b = ''null'' @ [CHR 0x0A] then Inr out
        else Inl (JsonError ''invalid character''))\<rparr>"

section \<open>Notions used in the proofs\<close>

text \<open>
  What \<open>Clean\<close> keeps of a path, last element first: no element is empty, \<open>.\<close> or
  contains a separator, and \<open>..\<close> stands only at the front of a relative path.
\<close>

fun dots_first :: "string list \<Rightarrow> bool" where
  "dots_first [] = True"
| "dots_first (t # rest) = ((t = ''..'' \<longrightarrow> (\<forall>e\<in>set rest. e = ''..'')) \<and> dots_first rest)"

definition clean_inv :: "bool \<Rightarrow> string list \<Rightarrow> bool" where
  "clean_inv r out =
     ((\<forall>e\<in>set out. e \<noteq> [] \<and> e \<noteq> ''.'' \<and> CHR ''/'' \<notin> set e) \<and>
      (r \<longrightarrow> ''..'' \<notin> set out) \<and> dots_first out)"

text \<open>The elements that \<open>Clean\<close> has written when it reaches the end of a path.\<close>

definition stack :: "path \<Rightarrow> string list" where
  "stack p = foldl (clean_elem (is_rooted p)) [] (split_sep p)"

text \<open>
  A resource whose last path element names a file: it is not empty, \<open>.\<close> or \<open>..\<close>.
\<close>

definition file_name :: "string \<Rightarrow> bool" where
  "file_name r = (base r \<noteq> [] \<and> base r \<noteq> ''.'' \<and> base r \<noteq> ''..'')"


text \<open>
  The state in which the body of a locked method starts: the registry has been consulted
  and the collection's mutex is held.
\<close>

definition entered :: "string \<Rightarrow> state \<Rightarrow> state" where
  "entered c s =
     emit (Lock (CollectionMutex (fst (getOrCreateMutex c s)))) (snd (getOrCreateMutex c s))"

section \<open>Example states\<close>

text \<open>
  The state after \<open>New("/db")\<close> and two writes into the collection \<open>Users\<close>, with
  an empty record of calls.
\<close>

definition users_state :: state where
  "users_state =
     \<lparr>dir = ''/db'', mutexes = [(''Users'', 0)], allocated = 1,
      files = [(''/db'', Dir), (''/db/Users'', Dir),
               (''/db/Users/a.json'', Regular (''true'' @ [CHR 0x0A])),
               (''/db/Users/b.json'', Regular (''false'' @ [CHR 0x0A]))],
      trace = []\<rparr>"

text \<open>
  The same state after \<open>Write("Users/a", "x", null)\<close>: beside the resource file
  \<open>a.json\<close> of \<open>Users\<close> there is now a directory \<open>a\<close>.
\<close>

definition nested_state :: state where
  "nested_state =
     \<lparr>dir = ''/db'', mutexes = [(''Users/a'', 1), (''Users'', 0)], allocated = 2,
      files = [(''/db'', Dir), (''/db/Users'', Dir),
               (''/db/Users/a.json'', Regular (''true'' @ [CHR 0x0A])),
               (''/db/Users/b.json'', Regular (''false'' @ [CHR 0x0A])),
               (''/db/Users/a'', Dir),
               (''/db/Users/a/x.json'', Regular (''null'' @ [CHR 0x0A]))],
      trace = []\<rparr>"

text \<open>
  The state after \<open>New("/db")\<close> and \<open>Write("Users", "a.json", true)\<close>: the resource
  named \<open>a.json\<close> is the file \<open>a.json.json\<close>, and there is no file \<open>a.json\<close>.
\<close>

definition suffix_state :: state where
  "suffix_state =
     \<lparr>dir = ''/db'', mutexes = [(''Users'', 0)], allocated = 1,
      files = [(''/db'', Dir), (''/db/Users'', Dir),
               (''/db/Users/a.json.json'', Regular (''true'' @ [CHR 0x0A]))],
      trace = []\<rparr>"

text \<open>
  The state of the demonstration program after \<open>New("./")\<close> and one write: the driver's
  directory is the working directory \<open>.\<close>.
\<close>

definition dot_state :: state where
  "dot_state =
     \<lparr>dir = ''.'', mutexes = [(''Users'', 0)], allocated = 1,
      files = [(''Users'', Dir),
               (''Users/a.json'', Regular (''true'' @ [CHR 0x0A]))],
      trace = []\<rparr>"

text \<open>The same for a driver made by \<open>New("/")\<close>.\<close>

definition slash_state :: state where
  "slash_state =
     \<lparr>dir = ''/'', mutexes = [(''Users'', 0)], allocated = 1,
      files = [(''/Users'', Dir),
               (''/Users/a.json'', Regular (''true'' @ [CHR 0x0A]))],
      trace = []\<rparr>"

text \<open>
  \<open>users_state\<close> with a socket \<open>b\<close> that another program has bound inside the
  collection directory, beside the resource file \<open>b.json\<close>.
\<close>

definition socket_state :: state where
  "socket_state =
     \<lparr>dir = ''/db'', mutexes = [(''Users'', 0)], allocated = 1,
      files = [(''/db'', Dir), (''/db/Users'', Dir),
               (''/db/Users/a.json'', Regular (''true'' @ [CHR 0x0A])),
               (''/db/Users/b.json'', Regular (''false'' @ [CHR 0x0A])),
               (''/db/Users/b'', Socket)],
      trace = []\<rparr>"

section \<open>Lemmas about paths\<close>


lemma split_sep_nonempty: "split_sep p \<noteq> []"
  by (induction p) (auto split: list.splits)

lemma split_sep_append: "split_sep (a @ CHR ''/'' # b) = split_sep a @ split_sep b"
  by (induction a) (auto split: list.splits simp: split_sep_nonempty)

lemma split_sep_no_sep: "e \<in> set (split_sep p) \<Longrightarrow> CHR ''/'' \<notin> set e"
  by (induction p arbitrary: e) (auto split: list.splits if_splits)

lemma split_sep_plain: "CHR ''/'' \<notin> set e \<Longrightarrow> split_sep e = [e]"
  by (induction e) (auto split: list.splits)

lemma split_sep_join_sep:
  "cs \<noteq> [] \<Longrightarrow> \<forall>e\<in>set cs. CHR ''/'' \<notin> set e \<Longrightarrow> split_sep (join_sep cs) = cs"
proof (induction cs rule: join_sep.induct)
  case 1 then show ?case by simp
next
  case (2 x) then show ?case by (simp add: split_sep_plain)
next
  case (3 x y ys)
  then show ?case using split_sep_append[of x "join_sep (y # ys)"] by (simp add: split_sep_plain)
qed

lemma split_sep_suffix:
  "CHR ''/'' \<notin> set t \<Longrightarrow> split_sep (p @ t) = butlast (split_sep p) @ [last (split_sep p) @ t]"
  by (induction p) (auto split: list.splits simp: split_sep_plain split_sep_nonempty)


lemma clean_inv_Nil: "clean_inv r []"
  by (simp add: clean_inv_def)

lemma dots_first_tl: "dots_first (t # rest) \<Longrightarrow> dots_first rest"
  by simp

lemma clean_inv_step:
  assumes "clean_inv r out" "CHR ''/'' \<notin> set e"
  shows "clean_inv r (clean_elem r out e)"
proof (cases out)
  case Nil
  with assms show ?thesis by (auto simp: clean_inv_def clean_elem_def)
next
  case (Cons t rest)
  with assms show ?thesis by (auto simp: clean_inv_def clean_elem_def)
qed

lemma clean_inv_foldl:
  "clean_inv r out \<Longrightarrow> \<forall>e\<in>set es. CHR ''/'' \<notin> set e \<Longrightarrow> clean_inv r (foldl (clean_elem r) out es)"
  by (induction es arbitrary: out) (auto simp: clean_inv_step)

lemma dots_first_append: "dots_first (ys @ zs) \<Longrightarrow> dots_first zs"
  by (induction ys) auto

lemma dots_first_mid: "dots_first (ys @ ''..'' # zs) \<Longrightarrow> e \<in> set zs \<Longrightarrow> e = ''..''"
  by (induction ys) auto

lemma clean_inv_replay:
  "clean_inv r (rev xs @ acc) \<Longrightarrow> foldl (clean_elem r) acc xs = rev xs @ acc"
proof (induction xs arbitrary: acc)
  case Nil
  then show ?case by simp
next
  case (Cons x xs)
  have inv: "clean_inv r (rev xs @ x # acc)" using Cons.prems by simp
  have x_ok: "x \<noteq> []" "x \<noteq> ''.''" using inv by (auto simp: clean_inv_def)
  have step: "clean_elem r acc x = x # acc"
  proof (cases "x = ''..''")
    case False
    with x_ok show ?thesis by (simp add: clean_elem_def)
  next
    case True
    have nr: "\<not> r" using inv True by (auto simp: clean_inv_def)
    have "dots_first (rev xs @ ''..'' # acc)" using inv True by (simp add: clean_inv_def)
    then have all: "\<And>e. e \<in> set acc \<Longrightarrow> e = ''..''" by (rule dots_first_mid)
    show ?thesis
    proof (cases acc)
      case Nil
      with True nr show ?thesis by (simp add: clean_elem_def)
    next
      case (Cons t rest)
      with all have "t = ''..''" by simp
      with True nr Cons show ?thesis by (simp add: clean_elem_def)
    qed
  qed
  show ?case using Cons.IH[of "x # acc"] inv step by simp
qed

lemma join_sep_hd: "join_sep (c # cs) = c @ (if cs = [] then [] else CHR ''/'' # join_sep cs)"
  by (cases cs) auto

lemma render_props:
  assumes "clean_inv r out"
  shows "render r (rev out) \<noteq> []"
    and "is_rooted (render r (rev out)) = r"
    and "foldl (clean_elem r) [] (split_sep (render r (rev out))) = out"
proof -
  let ?cs = "rev out"
  have plain: "\<forall>e\<in>set ?cs. CHR ''/'' \<notin> set e" and ne: "\<forall>e\<in>set ?cs. e \<noteq> []"
    using assms by (auto simp: clean_inv_def)
  have replay: "foldl (clean_elem r) [] ?cs = out"
    using clean_inv_replay[of r ?cs "[]"] assms by simp
  show "render r ?cs \<noteq> []"
  proof (cases r)
    case True then show ?thesis by (simp add: render_def)
  next
    case False
    show ?thesis
    proof (cases ?cs)
      case Nil with False show ?thesis by (simp add: render_def)
    next
      case (Cons c cs')
      with ne have "c \<noteq> []" by simp
      with False Cons show ?thesis by (simp add: render_def join_sep_hd)
    qed
  qed
  show "is_rooted (render r ?cs) = r"
  proof (cases r)
    case True then show ?thesis by (simp add: render_def is_rooted_def)
  next
    case False
    show ?thesis
    proof (cases ?cs)
      case Nil with False show ?thesis by (simp add: render_def is_rooted_def)
    next
      case (Cons c cs')
      with ne plain have "c \<noteq> []" "CHR ''/'' \<notin> set c" by simp_all
      then obtain a c' where "c = a # c'" "a \<noteq> CHR ''/''" by (cases c) auto
      with False Cons show ?thesis by (simp add: render_def is_rooted_def join_sep_hd)
    qed
  qed
  show "foldl (clean_elem r) [] (split_sep (render r ?cs)) = out"
  proof (cases "?cs = []")
    case True
    then have "out = []" by simp
    then show ?thesis by (cases r) (simp_all add: render_def clean_elem_def)
  next
    case False
    then have sp: "split_sep (join_sep ?cs) = ?cs" using plain by (rule split_sep_join_sep)
    show ?thesis
    proof (cases r)
      case True
      then have "split_sep (render r ?cs) = [] # ?cs" using sp by (simp add: render_def)
      then show ?thesis using replay by (simp add: clean_elem_def)
    next
      case nr: False
      with \<open>?cs \<noteq> []\<close> have "split_sep (render r ?cs) = ?cs" using sp by (simp add: render_def)
      then show ?thesis using replay by simp
    qed
  qed
qed

lemma stack_inv: "clean_inv (is_rooted p) (stack p)"
  unfolding stack_def by (rule clean_inv_foldl) (auto simp: clean_inv_Nil split_sep_no_sep)

lemma Clean_stack: "p \<noteq> [] \<Longrightarrow> Clean p = render (is_rooted p) (rev (stack p))"
  by (simp add: Clean_def clean_elems_def stack_def)

lemma Clean_nonempty: "Clean p \<noteq> []"
proof (cases "p = []")
  case True then show ?thesis by (simp add: Clean_def)
next
  case False
  then show ?thesis using render_props(1)[OF stack_inv[of p]] by (simp add: Clean_stack)
qed

lemma is_rooted_Clean: "p \<noteq> [] \<Longrightarrow> is_rooted (Clean p) = is_rooted p"
  using render_props(2)[OF stack_inv[of p]] by (simp add: Clean_stack)

lemma stack_Clean: "p \<noteq> [] \<Longrightarrow> foldl (clean_elem (is_rooted p)) [] (split_sep (Clean p)) = stack p"
  using render_props(3)[OF stack_inv[of p]] by (simp add: Clean_stack)

lemma is_rooted_append: "p \<noteq> [] \<Longrightarrow> is_rooted (p @ q) = is_rooted p"
  by (cases p) (auto simp: is_rooted_def)

lemma stack_append:
  "p \<noteq> [] \<Longrightarrow> stack (p @ CHR ''/'' # q) = foldl (clean_elem (is_rooted p)) (stack p) (split_sep q)"
  by (simp add: stack_def is_rooted_append split_sep_append)

lemma Clean_Clean_append:
  assumes "p \<noteq> []"
  shows "Clean (Clean p @ CHR ''/'' # q) = Clean (p @ CHR ''/'' # q)"
proof -
  have "stack (Clean p @ CHR ''/'' # q) = stack (p @ CHR ''/'' # q)"
    using assms Clean_nonempty[of p]
    by (simp add: stack_append is_rooted_Clean) (simp add: stack_def is_rooted_Clean stack_Clean[unfolded stack_def])
  moreover have "is_rooted (Clean p @ CHR ''/'' # q) = is_rooted (p @ CHR ''/'' # q)"
    using assms Clean_nonempty[of p] by (simp add: is_rooted_append is_rooted_Clean)
  ultimately show ?thesis by (simp add: Clean_stack)
qed

lemma Clean_idem: "Clean (Clean p) = Clean p"
proof (cases "p = []")
  case True
  then show ?thesis by (simp add: Clean_def render_def clean_elems_def clean_elem_def is_rooted_def)
next
  case False
  have st: "stack (Clean p) = stack p"
    using False by (simp add: stack_def is_rooted_Clean stack_Clean[unfolded stack_def])
  have "Clean (Clean p) = render (is_rooted (Clean p)) (rev (stack (Clean p)))"
    using Clean_nonempty by (rule Clean_stack)
  also have "\<dots> = render (is_rooted p) (rev (stack p))"
    using False st by (simp add: is_rooted_Clean)
  also have "\<dots> = Clean p" using False by (simp add: Clean_stack)
  finally show ?thesis .
qed

lemma Clean_trailing_sep: "p \<noteq> [] \<Longrightarrow> Clean (p @ ''/'') = Clean p"
proof -
  assume ne: "p \<noteq> []"
  have "stack (p @ ''/'') = stack p" using ne by (simp add: stack_append clean_elem_def)
  then show ?thesis using ne by (simp add: Clean_stack is_rooted_append)
qed


lemma join_sep_snoc: "join_sep (cs @ [e]) @ t = join_sep (cs @ [e @ t])"
  by (induction cs) (simp_all add: join_sep_hd)

lemma render_snoc: "render r (cs @ [e]) @ t = render r (cs @ [e @ t])"
  by (simp add: render_def join_sep_snoc)

lemma Clean_suffix:
  assumes "file_name p"
  shows "Clean p @ ''.json'' = Clean (p @ ''.json'')"
proof -
  let ?e = "base p" and ?pre = "butlast (split_sep p)"
  let ?r = "is_rooted p"
  have ne: "p \<noteq> []" using assms by (auto simp: file_name_def base_def)
  have e: "?e \<noteq> []" "?e \<noteq> ''.''" "?e \<noteq> ''..''" using assms by (auto simp: file_name_def)
  have sp: "split_sep p = ?pre @ [?e]"
    using split_sep_nonempty[of p] by (simp add: base_def)
  have sp': "split_sep (p @ ''.json'') = ?pre @ [?e @ ''.json'']"
    using split_sep_suffix[of "''.json''" p] by (simp add: base_def)
  have r': "is_rooted (p @ ''.json'') = ?r" using ne by (rule is_rooted_append)
  have s1: "stack p = ?e # foldl (clean_elem ?r) [] ?pre"
    unfolding stack_def by (subst sp) (use e in \<open>simp add: clean_elem_def\<close>)
  have s2: "stack (p @ ''.json'') = (?e @ ''.json'') # foldl (clean_elem ?r) [] ?pre"
    unfolding stack_def r' by (subst sp') (simp add: clean_elem_def)
  have "Clean p @ ''.json'' = render ?r (rev (stack p)) @ ''.json''"
    using ne by (simp add: Clean_stack)
  also have "\<dots> = render ?r (rev (stack (p @ ''.json'')))"
    by (simp only: s1 s2 rev.simps render_snoc)
  also have "\<dots> = Clean (p @ ''.json'')"
    using Clean_stack[of "p @ ''.json''"] r' by simp
  finally show ?thesis .
qed

lemma base_append_sep: "base (p @ CHR ''/'' # q) = base q"
  by (simp add: base_def split_sep_append split_sep_nonempty)

lemma file_name_append_sep: "file_name (p @ CHR ''/'' # q) = file_name q"
  by (simp add: file_name_def base_append_sep)

lemma Join2: "Join [d, c] = (if d = [] then (if c = [] then [] else Clean c) else Clean (d @ ''/'' @ c))"
  by (simp add: Join_def)

lemma Join3:
  "c \<noteq> [] \<Longrightarrow> Join [d, c, r] = (if d = [] then Clean (c @ ''/'' @ r) else Clean (d @ ''/'' @ c @ ''/'' @ r))"
  by (simp add: Join_def)

lemma Join_Join:
  assumes "c \<noteq> []"
  shows "Join [Join [d, c], y] = Join [d, c, y]"
proof (cases "d = []")
  case True
  then show ?thesis using assms Clean_nonempty[of c] Clean_Clean_append[of c y]
    by (simp add: Join2 Join3)
next
  case False
  have "d @ ''/'' @ c \<noteq> []" using False by simp
  from Clean_Clean_append[OF this, of y] show ?thesis
    using False assms Clean_nonempty[of "d @ ''/'' @ c"] by (simp add: Join2 Join3)
qed

lemma Join_suffix:
  assumes "c \<noteq> []" "file_name r"
  shows "Join [d, c, r] @ ''.json'' = Join [d, c, r @ ''.json'']"
proof (cases "d = []")
  case True
  have "file_name (c @ CHR ''/'' # r)" using assms(2) by (simp add: file_name_append_sep)
  from Clean_suffix[OF this] show ?thesis using True assms(1) by (simp add: Join3)
next
  case False
  have "file_name ((d @ ''/'' @ c) @ CHR ''/'' # r)" using assms(2) by (simp only: file_name_append_sep)
  from Clean_suffix[OF this] show ?thesis using False assms(1) by (simp add: Join3)
qed

lemma Join_root: "Join [Clean d, Join [Nil, Nil]] = Clean d"
  using Clean_nonempty[of d] Clean_trailing_sep[of "Clean d"]
  by (simp add: Join_def Clean_idem)

lemma split_sep_render:
  assumes "clean_inv r out"
  shows "split_sep (render r (rev out)) =
           (if r then [] # (if out = [] then [Nil] else rev out)
            else if out = [] then [''.''] else rev out)"
proof -
  have plain: "\<forall>e\<in>set (rev out). CHR ''/'' \<notin> set e"
    using assms by (auto simp: clean_inv_def)
  show ?thesis
  proof (cases "out = []")
    case True
    then show ?thesis by (simp add: render_def)
  next
    case False
    then have "rev out \<noteq> []" by simp
    then have "split_sep (join_sep (rev out)) = rev out" using plain by (rule split_sep_join_sep)
    with False show ?thesis by (simp add: render_def)
  qed
qed

lemma last_split_sep_Clean:
  assumes "last (split_sep (Clean p)) = ''.''"
  shows "Clean p = ''.''"
proof (cases "p = []")
  case True
  then show ?thesis by (simp add: Clean_def)
next
  case False
  let ?r = "is_rooted p" and ?out = "stack p"
  have inv: "clean_inv ?r ?out" by (rule stack_inv)
  have C: "Clean p = render ?r (rev ?out)" using False by (rule Clean_stack)
  have sp: "split_sep (Clean p) =
           (if ?r then [] # (if ?out = [] then [Nil] else rev ?out)
            else if ?out = [] then [''.''] else rev ?out)"
    unfolding C using inv by (rule split_sep_render)
  have nodot: "?out \<noteq> [] \<Longrightarrow> last (rev ?out) \<noteq> ''.''"
    using inv last_in_set[of "rev ?out"] by (auto simp: clean_inv_def)
  show ?thesis
  proof (cases "?out = []")
    case True
    with assms sp have "\<not> ?r" by (auto split: if_splits)
    with True C show ?thesis by (simp add: render_def)
  next
    case ne: False
    with nodot have "last (rev ?out) \<noteq> ''.''" by simp
    with assms sp ne show ?thesis by (auto split: if_splits)
  qed
qed

lemma endsWithDot_last: "endsWithDot p \<Longrightarrow> last (split_sep p) = ''.''"
proof -
  assume "endsWithDot p"
  then consider "p = ''.''" | q where "p = q @ CHR ''/'' # ''.''"
    by (auto simp: endsWithDot_def suffix_def)
  then show ?thesis
  proof cases
    case 1
    then show ?thesis by simp
  next
    case 2
    then show ?thesis by (simp add: split_sep_append split_sep_nonempty)
  qed
qed

lemma endsWithDot_Clean: "endsWithDot (Clean p) \<longleftrightarrow> Clean p = ''.''"
  using endsWithDot_last[of "Clean p"] last_split_sep_Clean[of p]
  by (auto simp: endsWithDot_def)

lemma not_endsWithDot_json: "\<not> endsWithDot (p @ ''.json'')"
  by (auto simp: endsWithDot_def suffix_def)

section \<open>Lemmas about the file system and the state\<close>


lemma ancestors_length: "a \<in> set (ancestors p) \<Longrightarrow> length a < length p"
  by (auto simp: ancestors_def)

lemma no_sep_nth: "c \<notin> set t \<Longrightarrow> j < length t \<Longrightarrow> t ! j \<noteq> c"
  by (metis nth_mem)

lemma ancestors_suffix:
  assumes "CHR ''/'' \<notin> set t"
  shows "ancestors (p @ t) = ancestors p"
proof (cases "p = []")
  case True
  have "filter (\<lambda>j. t ! j = CHR ''/'') [1..<length t] = []"
    using assms by (auto simp: filter_empty_conv no_sep_nth)
  with True show ?thesis by (simp add: ancestors_def)
next
  case False
  then have le: "1 \<le> length p" by (cases p) auto
  have up: "[1..<length p + length t] = [1..<length p] @ [length p..<length p + length t]"
    using le by (rule upt_add_eq_append)
  have tail: "filter (\<lambda>j. (p @ t) ! j = CHR ''/'') [length p..<length p + length t] = []"
    using assms by (auto simp: filter_empty_conv nth_append no_sep_nth)
  have head: "filter (\<lambda>j. (p @ t) ! j = CHR ''/'') [1..<length p] = filter (\<lambda>j. p ! j = CHR ''/'') [1..<length p]"
    by (rule filter_cong) (auto simp: nth_append)
  have "filter (\<lambda>j. (p @ t) ! j = CHR ''/'') [1..<length (p @ t)]
          = filter (\<lambda>j. p ! j = CHR ''/'') [1..<length p]"
    by (simp only: length_append up filter_append tail head append_Nil2)
  then have "ancestors (p @ t) = map (\<lambda>j. take j (p @ t)) (filter (\<lambda>j. p ! j = CHR ''/'') [1..<length p])"
    by (simp only: ancestors_def)
  also have "\<dots> = ancestors p"
    unfolding ancestors_def by (rule map_cong) auto
  finally show ?thesis .
qed

lemma node_at_update_other: "q \<noteq> k \<Longrightarrow> node_at (AList.update k v fs) q = node_at fs q"
  by (simp add: node_at_def update_conv')

lemma node_at_delete_other: "q \<noteq> k \<Longrightarrow> node_at (AList.delete k fs) q = node_at fs q"
  by (simp add: node_at_def delete_conv')

lemma node_at_not_Dir: "node_at fs p \<noteq> Some Dir \<Longrightarrow> node_at fs p = map_of fs p"
  by (auto simp: node_at_def)

lemma walk_cong:
  "(\<And>a. a \<in> set as \<Longrightarrow> node_at fs' a = node_at fs a) \<Longrightarrow> walk fs' as = walk fs as"
  by (induction as) (auto split: option.splits node.splits)

lemma walk_errno: "walk fs as = Some e \<Longrightarrow> e = ENOENT \<or> e = ENOTDIR"
  by (induction as) (auto split: option.splits node.splits)

lemma trace_emit [simp]: "trace (emit e s) = trace s @ [e]"
  and files_emit [simp]: "files (emit e s) = files s"
  and mutexes_emit [simp]: "mutexes (emit e s) = mutexes s"
  and dir_emit [simp]: "dir (emit e s) = dir s"
  and allocated_emit [simp]: "allocated (emit e s) = allocated s"
  by (simp_all add: emit_def)

lemma stat_found:
  "os_Stat (files s) path = Inr fi \<Longrightarrow> stat path s = (Inr fi, emit (Stat path) s)"
  by (simp add: stat_def sys_read_def)

lemma stat_fallback:
  "os_Stat (files s) path = Inl e \<Longrightarrow> IsNotExist e \<Longrightarrow>
   stat path s = (os_Stat (files s) (path @ ''.json''), emit (Stat (path @ ''.json'')) (emit (Stat path) s))"
  by (simp add: stat_def sys_read_def)

lemma stat_other:
  "os_Stat (files s) path = Inl e \<Longrightarrow> \<not> IsNotExist e \<Longrightarrow> stat path s = (Inl e, emit (Stat path) s)"
  by (simp add: stat_def sys_read_def)

lemma stat_files [simp]: "files (snd (stat path s)) = files s"
  and stat_mutexes [simp]: "mutexes (snd (stat path s)) = mutexes s"
  and stat_dir [simp]: "dir (snd (stat path s)) = dir s"
  by (auto simp: stat_def sys_read_def split: sum.splits)

section \<open>Lemmas about the registry and the calls\<close>


lemma getOrCreateMutex_frame [simp]:
  "files (snd (getOrCreateMutex c s)) = files s"
  "dir (snd (getOrCreateMutex c s)) = dir s"
  "trace (snd (getOrCreateMutex c s)) = trace s @ [Lock RegistryMutex, Unlock RegistryMutex]"
  by (simp_all add: getOrCreateMutex_def Let_def split: option.splits)

lemma getOrCreateMutex_entry:
  "map_of (mutexes (snd (getOrCreateMutex c s))) c = Some (fst (getOrCreateMutex c s))"
  by (simp add: getOrCreateMutex_def Let_def split: option.splits)

lemma getOrCreateMutex_keeps:
  "map_of (mutexes s) c' = Some m \<Longrightarrow> map_of (mutexes (snd (getOrCreateMutex c s))) c' = Some m"
  by (auto simp: getOrCreateMutex_def Let_def split: option.splits)

lemma getOrCreateMutex_same:
  "map_of (mutexes s) c = Some m \<Longrightarrow> fst (getOrCreateMutex c s) = m"
  by (simp add: getOrCreateMutex_def Let_def)

lemma sys_read_frame [simp]:
  "files (snd (sys_read e f s)) = files s"
  "dir (snd (sys_read e f s)) = dir s"
  "mutexes (snd (sys_read e f s)) = mutexes s"
  "trace (snd (sys_read e f s)) = trace s @ [e]"
  "fst (sys_read e f s) = f (files s)"
  by (simp_all add: sys_read_def)

lemma sys_write_frame [simp]:
  "dir (snd (sys_write e f s)) = dir s"
  "mutexes (snd (sys_write e f s)) = mutexes s"
  "trace (snd (sys_write e f s)) = trace s @ [e]"
  by (simp_all add: sys_write_def split: sum.splits)

lemma sys_change_frame [simp]:
  "dir (snd (sys_change e f s)) = dir s"
  "mutexes (snd (sys_change e f s)) = mutexes s"
  "trace (snd (sys_change e f s)) = trace s @ [e]"
  by (simp_all add: sys_change_def split: prod.splits option.splits)

lemma sys_change_eq:
  "f (files s) = (r, fs') \<Longrightarrow>
   sys_change e f s = (case r of None \<Rightarrow> Inr () | Some err \<Rightarrow> Inl err, emit e (s\<lparr>files := fs'\<rparr>))"
  by (simp add: sys_change_def split: option.splits)

lemma sys_write_ok:
  "f (files s) = Inr fs' \<Longrightarrow> sys_write e f s = (Inr (), emit e (s\<lparr>files := fs'\<rparr>))"
  by (simp add: sys_write_def)

lemma sys_write_err:
  "f (files s) = Inl err \<Longrightarrow> sys_write e f s = (Inl err, emit e s)"
  by (simp add: sys_write_def)

lemma locked_entered:
  "locked c body s =
     (fst (body (entered c s)),
      emit (Unlock (CollectionMutex (fst (getOrCreateMutex c s)))) (snd (body (entered c s))))"
  by (simp add: locked_def entered_def split: prod.splits)

lemma entered_frame [simp]:
  "files (entered c s) = files s"
  "dir (entered c s) = dir s"
  "trace (entered c s) =
     trace s @ [Lock RegistryMutex, Unlock RegistryMutex,
                Lock (CollectionMutex (fst (getOrCreateMutex c s)))]"
  by (simp_all add: entered_def)

lemma locked_eq:
  "locked c body s =
     (fst (body (emit (Lock (CollectionMutex (fst (getOrCreateMutex c s)))) (snd (getOrCreateMutex c s)))),
      emit (Unlock (CollectionMutex (fst (getOrCreateMutex c s))))
        (snd (body (emit (Lock (CollectionMutex (fst (getOrCreateMutex c s)))) (snd (getOrCreateMutex c s))))))"
  by (simp add: locked_def split: prod.splits)

lemma read_records_mutexes [simp]:
  "mutexes (snd (read_records d fis acc s)) = mutexes s"
  by (induction fis arbitrary: acc s) (simp_all add: prod.case_eq_if sum.case_eq_if)

lemma Write_keeps:
  "map_of (mutexes s) c' = Some m \<Longrightarrow> map_of (mutexes (snd (Write cdc c r v s))) c' = Some m"
  by (simp add: Write_def locked_eq Let_def getOrCreateMutex_keeps prod.case_eq_if sum.case_eq_if)

lemma Update_keeps:
  "map_of (mutexes s) c' = Some m \<Longrightarrow> map_of (mutexes (snd (Update cdc c r v s))) c' = Some m"
  by (simp add: Update_def locked_eq Let_def getOrCreateMutex_keeps prod.case_eq_if sum.case_eq_if)

lemma Delete_keeps:
  "map_of (mutexes s) c' = Some m \<Longrightarrow> map_of (mutexes (snd (Delete c r s))) c' = Some m"
  by (simp add: Delete_def locked_eq Let_def getOrCreateMutex_keeps prod.case_eq_if sum.case_eq_if)

lemma Read_keeps: "mutexes (snd (Read cdc c r v s)) = mutexes s"
  by (simp add: Read_def Let_def prod.case_eq_if sum.case_eq_if)

lemma ReadAll_keeps: "mutexes (snd (ReadAll c s)) = mutexes s"
  by (simp add: ReadAll_def Let_def prod.case_eq_if sum.case_eq_if)

lemma run_call_keeps:
  "map_of (mutexes s) c = Some m \<Longrightarrow> map_of (mutexes (run_call cdc s call)) c = Some m"
  by (cases call) (simp_all add: Write_keeps Update_keeps Delete_keeps Read_keeps ReadAll_keeps)

lemma run_calls_keeps:
  "map_of (mutexes s) c = Some m \<Longrightarrow> map_of (mutexes (run_calls cdc s calls)) c = Some m"
  unfolding run_calls_def
  by (induction calls arbitrary: s) (simp_all add: run_call_keeps)

lemma os_Stat_Inr_iff:
  "os_Stat fs p = Inr fi \<longleftrightarrow>
     walk fs (ancestors p) = None \<and> (\<exists>n. node_at fs p = Some n \<and> fi = file_info p n)"
  by (auto simp: os_Stat_def split: option.splits)

lemma IsDir_file_info [simp]: "IsDir (Mode (file_info p n)) \<longleftrightarrow> n = Dir"
  by (cases n) simp_all

lemma IsRegular_file_info [simp]: "IsRegular (Mode (file_info p n)) \<longleftrightarrow> (\<exists>b. n = Regular b)"
  by (cases n) simp_all

lemma map_of_filter_out: "\<not> P q \<Longrightarrow> map_of (filter (\<lambda>(k, n). P k) fs) q = None"
  by (induction fs) auto

lemma map_of_filter_in: "P q \<Longrightarrow> map_of (filter (\<lambda>(k, n). P k) fs) q = map_of fs q"
  by (induction fs) auto

lemma read_records_dir [simp]: "dir (snd (read_records d fis acc s)) = dir s"
  by (induction fis arbitrary: acc s) (simp_all add: prod.case_eq_if sum.case_eq_if)

lemma getOrCreateMutex_dir: "dir (snd (getOrCreateMutex c s)) = dir s"
  by simp

lemma run_call_dir: "dir (run_call cdc s call) = dir s"
  by (cases call)
    (simp_all add: Write_def Read_def ReadAll_def Update_def Delete_def locked_entered Let_def
       prod.case_eq_if sum.case_eq_if)

lemma run_calls_dir: "dir (run_calls cdc s calls) = dir s"
  unfolding run_calls_def by (induction calls arbitrary: s) (simp_all add: run_call_dir)

lemma New_dir: "dir (snd (New d fs)) = Clean d"
  by (simp add: New_def Let_def prod.case_eq_if sum.case_eq_if)

lemma New_dir_nonempty: "dir (snd (New d fs)) \<noteq> []"
  by (simp add: New_dir Clean_nonempty)

text \<open>The example states are states that the driver reaches.\<close>

lemma users_state_reached:
  "run_calls doc_codec (snd (New ''/db'' []))
     [CallWrite ''Users'' ''a'' DTrue, CallWrite ''Users'' ''b'' DFalse] \<lparr>trace := []\<rparr> = users_state"
  by code_simp

lemma nested_state_reached:
  "run_calls doc_codec users_state [CallWrite ''Users/a'' ''x'' DNull] \<lparr>trace := []\<rparr> = nested_state"
  by code_simp

lemma dot_state_reached:
  "run_calls doc_codec (snd (New ''./'' [])) [CallWrite ''Users'' ''a'' DTrue] \<lparr>trace := []\<rparr>
     = dot_state"
  by code_simp

lemma slash_state_reached:
  "run_calls doc_codec (snd (New ''/'' [])) [CallWrite ''Users'' ''a'' DTrue] \<lparr>trace := []\<rparr>
     = slash_state"
  by code_simp

lemma suffix_state_reached:
  "run_calls doc_codec (snd (New ''/db'' [])) [CallWrite ''Users'' ''a.json'' DTrue] \<lparr>trace := []\<rparr>
     = suffix_state"
  by code_simp

section \<open>Lemmas about Write\<close>


lemma Write_mkdir_failed:
  assumes "c \<noteq> []" "r \<noteq> []" "os_MkdirAll (files s) (Join [dir s, c]) = Inl e"
  shows "Write cdc c r v s =
     (Inl e, emit (Unlock (CollectionMutex (fst (getOrCreateMutex c s))))
               (emit (MkdirAll (Join [dir s, c])) (entered c s)))"
  using assms by (simp add: Write_def locked_entered Let_def sys_write_def)

lemma Write_marshal_failed:
  assumes "c \<noteq> []" "r \<noteq> []" "os_MkdirAll (files s) (Join [dir s, c]) = Inr fs1"
    and "MarshalIndent cdc v [] [CHR 0x09] = Inl e"
  shows "Write cdc c r v s =
     (Inl e, emit (Unlock (CollectionMutex (fst (getOrCreateMutex c s))))
               (emit (MkdirAll (Join [dir s, c])) (entered c s\<lparr>files := fs1\<rparr>)))"
  using assms by (simp add: Write_def locked_entered Let_def sys_write_def)

lemma Write_tmp_failed:
  assumes "c \<noteq> []" "r \<noteq> []" "os_MkdirAll (files s) (Join [dir s, c]) = Inr fs1"
    and "MarshalIndent cdc v [] [CHR 0x09] = Inr b"
    and "ioutil_WriteFile fs1 (Join [Join [dir s, c], r @ ''.json''] @ ''.tmp'') (b @ [CHR 0x0A]) = Inl e"
  shows "Write cdc c r v s =
     (Inl e, emit (Unlock (CollectionMutex (fst (getOrCreateMutex c s))))
               (emit (WriteFile (Join [Join [dir s, c], r @ ''.json''] @ ''.tmp'') (b @ [CHR 0x0A]))
                 (emit (MkdirAll (Join [dir s, c])) (entered c s\<lparr>files := fs1\<rparr>))))"
  using assms by (simp add: Write_def locked_entered Let_def sys_write_def)

lemma Write_renaming:
  assumes "c \<noteq> []" "r \<noteq> []" "os_MkdirAll (files s) (Join [dir s, c]) = Inr fs1"
    and "MarshalIndent cdc v [] [CHR 0x09] = Inr b"
    and "ioutil_WriteFile fs1 (Join [Join [dir s, c], r @ ''.json''] @ ''.tmp'') (b @ [CHR 0x0A]) = Inr fs2"
  shows "Write cdc c r v s =
     (case os_Rename fs2 (Join [Join [dir s, c], r @ ''.json''] @ ''.tmp'') (Join [Join [dir s, c], r @ ''.json'']) of
        Inl e \<Rightarrow> Inl e | Inr fs3 \<Rightarrow> Inr (),
      emit (Unlock (CollectionMutex (fst (getOrCreateMutex c s))))
        (emit (Rename (Join [Join [dir s, c], r @ ''.json''] @ ''.tmp'') (Join [Join [dir s, c], r @ ''.json'']))
          (emit (WriteFile (Join [Join [dir s, c], r @ ''.json''] @ ''.tmp'') (b @ [CHR 0x0A]))
            (emit (MkdirAll (Join [dir s, c])) (entered c s\<lparr>files := fs1\<rparr>))
           \<lparr>files := (case os_Rename fs2 (Join [Join [dir s, c], r @ ''.json''] @ ''.tmp'') (Join [Join [dir s, c], r @ ''.json'']) of
        Inl e \<Rightarrow> fs2 | Inr fs3 \<Rightarrow> fs3)\<rparr>)))"
  using assms by (simp add: Write_def locked_entered Let_def sys_write_def emit_def split: sum.splits)


lemma WriteFile_Inr:
  assumes "ioutil_WriteFile fs p b = Inr fs2"
  shows "fs2 = AList.update p (Regular b) fs" "walk fs (ancestors p) = None"
    "node_at fs p \<noteq> Some Dir" "p \<noteq> ''/''" "p \<noteq> ''.''"
  using assms by (auto simp: ioutil_WriteFile_def node_at_def split: option.splits node.splits)

lemma WriteFile_regular:
  "walk fs (ancestors p) = None \<Longrightarrow> node_at fs p = Some (Regular old) \<Longrightarrow>
   ioutil_WriteFile fs p b = Inr (AList.update p (Regular b) fs)"
  by (simp add: ioutil_WriteFile_def)

lemma walk_update:
  "walk (AList.update p n fs) (ancestors q) = walk fs (ancestors q)" if "length q \<le> length p"
proof (rule walk_cong)
  fix a assume "a \<in> set (ancestors q)"
  then have "a \<noteq> p" using ancestors_length that by fastforce
  then show "node_at (AList.update p n fs) a = node_at fs a" by (rule node_at_update_other)
qed

lemma walk_delete:
  "walk (AList.delete p fs) (ancestors q) = walk fs (ancestors q)" if "length q \<le> length p"
proof (rule walk_cong)
  fix a assume "a \<in> set (ancestors q)"
  then have "a \<noteq> p" using ancestors_length that by fastforce
  then show "node_at (AList.delete p fs) a = node_at fs a" by (rule node_at_delete_other)
qed

lemma Rename_tmp:
  assumes "ioutil_WriteFile fs1 (fnl @ ''.tmp'') data = Inr fs2"
  shows "os_Rename fs2 (fnl @ ''.tmp'') fnl =
     (if node_at fs1 fnl = Some Dir then Inl (LinkError ''rename'' (fnl @ ''.tmp'') fnl EEXIST)
      else Inr (AList.update fnl (Regular data) (AList.delete (fnl @ ''.tmp'') fs2)))"
proof -
  let ?tmp = "fnl @ ''.tmp''"
  note w = WriteFile_Inr[OF assms]
  have anc: "ancestors ?tmp = ancestors fnl" by (rule ancestors_suffix) simp
  have w2: "walk fs2 (ancestors ?tmp) = None" unfolding w(1) using w(2) by (simp add: walk_update)
  have m2: "node_at fs2 ?tmp = Some (Regular data)"
    unfolding w(1) using w(4,5) by (simp add: node_at_def update_conv')
  have f2: "node_at fs2 fnl = node_at fs1 fnl" unfolding w(1) by (simp add: node_at_update_other)
  have mi: "missing fs2 ?tmp = None" using w2 m2 by (simp add: missing_def)
  show ?thesis
  proof (cases "node_at fs1 fnl = Some Dir")
    case True
    then show ?thesis using w2 f2 anc mi by (simp add: os_Rename_def)
  next
    case False
    then show ?thesis using w2 m2 f2 anc w(4,5)
      by (simp add: os_Rename_def syscall_Rename_def)
  qed
qed

lemma Rename_tmp_result:
  assumes "ioutil_WriteFile fs1 (fnl @ ''.tmp'') data = Inr fs2"
    and "os_Rename fs2 (fnl @ ''.tmp'') fnl = Inr fs3"
  shows "map_of fs3 fnl = Some (Regular data)"
    and "map_of fs3 (fnl @ ''.tmp'') = None"
    and "q \<noteq> fnl \<Longrightarrow> q \<noteq> fnl @ ''.tmp'' \<Longrightarrow> map_of fs3 q = map_of fs1 q"
    and "walk fs3 (ancestors fnl) = None"
    and "node_at fs3 fnl = Some (Regular data)"
proof -
  note w = WriteFile_Inr[OF assms(1)]
  have nd: "node_at fs1 fnl \<noteq> Some Dir"
    using assms(2) Rename_tmp[OF assms(1)] by (auto split: if_splits)
  then have sp: "fnl \<noteq> ''/''" "fnl \<noteq> ''.''" by (auto simp: node_at_def)
  have fs3: "fs3 = AList.update fnl (Regular data) (AList.delete (fnl @ ''.tmp'') fs2)"
    using assms(2) Rename_tmp[OF assms(1)] by (simp split: if_splits)
  show "map_of fs3 fnl = Some (Regular data)" by (simp add: fs3 update_conv')
  then show "node_at fs3 fnl = Some (Regular data)" using sp by (simp add: node_at_def)
  show "map_of fs3 (fnl @ ''.tmp'') = None" by (simp add: fs3 update_conv' delete_conv')
  show "q \<noteq> fnl \<Longrightarrow> q \<noteq> fnl @ ''.tmp'' \<Longrightarrow> map_of fs3 q = map_of fs1 q"
    by (simp add: fs3 w(1) update_conv' delete_conv')
  have anc: "ancestors (fnl @ ''.tmp'') = ancestors fnl" by (rule ancestors_suffix) simp
  show "walk fs3 (ancestors fnl) = None"
    unfolding fs3 w(1) using w(2) anc by (simp add: walk_update walk_delete)
qed

lemma Write_WriteFile_events:
  assumes "c \<noteq> []" "r \<noteq> []" "MarshalIndent cdc v [] [CHR 0x09] = Inr b"
    and "WriteFile p data \<in> set (drop (length (trace s)) (trace (snd (Write cdc c r v s))))"
  shows "p = Join [Join [dir s, c], r @ ''.json''] @ ''.tmp'' \<and> data = b @ [CHR 0x0A]"
proof (cases "os_MkdirAll (files s) (Join [dir s, c])")
  case (Inl e)
  from assms(4) show ?thesis unfolding Write_mkdir_failed[OF assms(1,2) Inl] by simp
next
  case mk: (Inr fs1)
  show ?thesis
  proof (cases "ioutil_WriteFile fs1 (Join [Join [dir s, c], r @ ''.json''] @ ''.tmp'') (b @ [CHR 0x0A])")
    case (Inl e)
    from assms(4) show ?thesis unfolding Write_tmp_failed[OF assms(1,2) mk assms(3) Inl] by simp
  next
    case (Inr fs2)
    from assms(4) show ?thesis unfolding Write_renaming[OF assms(1,2) mk assms(3) Inr] by simp
  qed
qed

section \<open>Lemmas about Delete\<close>

lemma os_Stat_Inl_cases:
  assumes "os_Stat fs p = Inl e"
  shows "(walk fs (ancestors p) = None \<and> node_at fs p = None \<and> e = PathError ''stat'' p ENOENT)
       \<or> (\<exists>x. walk fs (ancestors p) = Some x \<and> e = PathError ''stat'' p x)"
  using assms by (auto simp: os_Stat_def split: option.splits)

lemma os_Stat_other_error:
  "(\<exists>e. os_Stat fs p = Inl e \<and> \<not> IsNotExist e) \<longleftrightarrow> walk fs (ancestors p) = Some ENOTDIR"
proof
  assume "\<exists>e. os_Stat fs p = Inl e \<and> \<not> IsNotExist e"
  then obtain e where e: "os_Stat fs p = Inl e" "\<not> IsNotExist e" by blast
  from os_Stat_Inl_cases[OF e(1)] e(2) obtain x where x: "walk fs (ancestors p) = Some x" "x \<noteq> ENOENT"
    by auto
  with walk_errno[OF x(1)] show "walk fs (ancestors p) = Some ENOTDIR" by simp
next
  assume "walk fs (ancestors p) = Some ENOTDIR"
  then have "os_Stat fs p = Inl (PathError ''stat'' p ENOTDIR)" by (simp add: os_Stat_def)
  then show "\<exists>e. os_Stat fs p = Inl e \<and> \<not> IsNotExist e" by simp
qed

lemma os_Stat_json_resolves:
  assumes "os_Stat fs (p @ ''.json'') = Inr fi"
  shows "walk fs (ancestors p) = None"
proof -
  have "ancestors (p @ ''.json'') = ancestors p" by (rule ancestors_suffix) simp
  then show ?thesis using assms by (simp add: os_Stat_Inr_iff)
qed

lemma stat_via_json:
  assumes "os_Stat (files s) (p @ ''.json'') = Inr fi" and "os_Stat (files s) p = Inl e"
  shows "stat p s = (Inr fi, emit (Stat (p @ ''.json'')) (emit (Stat p) s))"
proof -
  have "walk (files s) (ancestors p) = None" using assms(1) by (rule os_Stat_json_resolves)
  with os_Stat_Inl_cases[OF assms(2)] have "IsNotExist e" by auto
  from stat_fallback[OF assms(2) this] assms(1) show ?thesis by simp
qed

lemma stat_both_missing:
  assumes "os_Stat (files s) p = Inl e1" and "os_Stat (files s) (p @ ''.json'') = Inl e2"
  shows "\<exists>e. fst (stat p s) = Inl e" and "files (snd (stat p s)) = files s"
  using assms by (cases "IsNotExist e1"; simp add: stat_fallback stat_other)+

lemma RemoveAll_regular:
  assumes "os_Stat fs p = Inr fi" "IsRegular (Mode fi)" "p \<noteq> []" "\<not> endsWithDot p"
  shows "os_RemoveAll fs p = (None, AList.delete p fs)"
  using assms by (auto simp: os_Stat_Inr_iff os_RemoveAll_def)

lemma RemoveAll_dir:
  assumes "os_Stat fs p = Inr fi" "IsDir (Mode fi)" "p \<noteq> []" "\<not> endsWithDot p" "p \<noteq> ''/''"
  shows "os_RemoveAll fs p = (None, filter (\<lambda>(q, n). q \<noteq> p \<and> \<not> beneath p q) fs)"
  using assms by (auto simp: os_Stat_Inr_iff os_RemoveAll_def)

lemma RemoveAll_dot: "os_RemoveAll fs ''.'' = (Some (PathError ''RemoveAll'' ''.'' EINVAL), fs)"
  by (simp add: os_RemoveAll_def endsWithDot_def)

lemma RemoveAll_slash:
  "os_RemoveAll fs ''/'' =
     (Some (PathError ''unlinkat'' ''/'' EBUSY), filter (\<lambda>(q, n). \<not> beneath ''/'' q) fs)"
  by (simp add: os_RemoveAll_def endsWithDot_def node_at_def ancestors_def suffix_def)

lemma Delete_not_found:
  assumes "stat (Join [dir s, Join [c, r]]) (entered c s) = (Inl x, s1)"
  shows "Delete c r s =
     (Inl (Errorf (''Unable to find file or directory named '' @ Join [c, r])),
      emit (Unlock (CollectionMutex (fst (getOrCreateMutex c s)))) s1)"
  unfolding Delete_def locked_entered Let_def using assms by simp

lemma Delete_dir:
  assumes "stat (Join [dir s, Join [c, r]]) (entered c s) = (Inr fi, s1)"
    and "IsDir (Mode fi)"
    and "os_RemoveAll (files s1) (Join [dir s, Join [c, r]]) = (res, fs')"
  shows "Delete c r s =
     (case res of None \<Rightarrow> Inr () | Some err \<Rightarrow> Inl err,
      emit (Unlock (CollectionMutex (fst (getOrCreateMutex c s))))
        (emit (RemoveAll (Join [dir s, Join [c, r]])) (s1\<lparr>files := fs'\<rparr>)))"
  unfolding Delete_def locked_entered Let_def using assms by (simp add: sys_change_eq)

lemma Delete_regular:
  assumes "stat (Join [dir s, Join [c, r]]) (entered c s) = (Inr fi, s1)"
    and "IsRegular (Mode fi)"
    and "os_RemoveAll (files s1) (Join [dir s, Join [c, r]] @ ''.json'') = (res, fs')"
  shows "Delete c r s =
     (case res of None \<Rightarrow> Inr () | Some err \<Rightarrow> Inl err,
      emit (Unlock (CollectionMutex (fst (getOrCreateMutex c s))))
        (emit (RemoveAll (Join [dir s, Join [c, r]] @ ''.json'')) (s1\<lparr>files := fs'\<rparr>)))"
proof -
  have "\<not> IsDir (Mode fi)" using assms(2) by (cases "Mode fi") simp_all
  then show ?thesis
    unfolding Delete_def locked_entered Let_def using assms by (simp add: sys_change_eq)
qed

lemma Join_nonempty: "d \<noteq> [] \<Longrightarrow> Join [d, p] \<noteq> []"
  using Clean_nonempty by (simp add: Join_def)

lemma Join_is_Clean: "d \<noteq> [] \<Longrightarrow> Join [d, p] = Clean (d @ ''/'' @ p)"
  by (simp add: Join_def)

section \<open>Lemmas about Read\<close>


lemma file_name_nonempty: "file_name r \<Longrightarrow> r \<noteq> []"
  by (auto simp: file_name_def base_def)

lemma Read_found:
  assumes "c \<noteq> []" "r \<noteq> []"
    and "stat (Join [dir s, c, r]) s = (Inr fi, s1)" and "files s1 = files s"
    and "ioutil_ReadFile (files s) (Join [dir s, c, r] @ ''.json'') = Inr data"
  shows "fst (Read cdc c r out s) = Unmarshal cdc data out"
  using assms by (simp add: Read_def Let_def sys_read_def)

lemma ReadFile_regular:
  "walk fs (ancestors p) = None \<Longrightarrow> node_at fs p = Some (Regular data) \<Longrightarrow> ioutil_ReadFile fs p = Inr data"
  by (simp add: ioutil_ReadFile_def)

lemma stat_json_exists:
  assumes "os_Stat (files s) (p @ ''.json'') = Inr fi"
  shows "\<exists>fi' s1. stat p s = (Inr fi', s1) \<and> files s1 = files s"
proof (cases "os_Stat (files s) p")
  case (Inr fd)
  from stat_found[OF Inr] show ?thesis by simp
next
  case (Inl e)
  from stat_via_json[OF assms Inl] show ?thesis by simp
qed

section \<open>The claims\<close>

text \<open>
  C1, as the code has it. For a non-empty collection and resource, \<open>Write\<close> first makes
  the collection directory; when that fails it returns the error of that call and changes
  no file. When the directory is there: a value that cannot be serialized gives the
  serialization error and no file is written; a serializable value is encoded with an
  empty prefix and a tab as indent, a newline is appended, and the bytes go to the final
  path with \<open>.tmp\<close> appended. When that write fails, \<open>Write\<close> returns its error and
  renames nothing. When it succeeds, the rename of the temporary file onto the final path
  is the last file-system call: if the final path is a directory the rename fails, its
  error is returned and the temporary file stays; otherwise \<open>Write\<close> succeeds, leaving
  the bytes at the final path, no temporary file, and every other path as it was.
\<close>

theorem C1_Write_stages_then_renames:
  assumes "collection \<noteq> []" and "resource \<noteq> []"
    and "dir' = Join [dir s, collection]"
    and "fnl = Join [dir', resource @ ''.json'']"
    and "tmp = fnl @ ''.tmp''"
    and "m = fst (getOrCreateMutex collection s)"
  shows
    "(\<forall>e. os_MkdirAll (files s) dir' = Inl e \<longrightarrow>
        fst (Write cdc collection resource v s) = Inl e \<and>
        files (snd (Write cdc collection resource v s)) = files s \<and>
        trace (snd (Write cdc collection resource v s)) =
          trace s @ [Lock RegistryMutex, Unlock RegistryMutex, Lock (CollectionMutex m),
                     MkdirAll dir', Unlock (CollectionMutex m)]) \<and>
     (\<forall>fs1 e. os_MkdirAll (files s) dir' = Inr fs1 \<and>
              MarshalIndent cdc v [] [CHR 0x09] = Inl e \<longrightarrow>
        fst (Write cdc collection resource v s) = Inl e \<and>
        files (snd (Write cdc collection resource v s)) = fs1 \<and>
        trace (snd (Write cdc collection resource v s)) =
          trace s @ [Lock RegistryMutex, Unlock RegistryMutex, Lock (CollectionMutex m),
                     MkdirAll dir', Unlock (CollectionMutex m)]) \<and>
     (\<forall>fs1 b e. os_MkdirAll (files s) dir' = Inr fs1 \<and>
              MarshalIndent cdc v [] [CHR 0x09] = Inr b \<and>
              ioutil_WriteFile fs1 tmp (b @ [CHR 0x0A]) = Inl e \<longrightarrow>
        fst (Write cdc collection resource v s) = Inl e \<and>
        files (snd (Write cdc collection resource v s)) = fs1 \<and>
        trace (snd (Write cdc collection resource v s)) =
          trace s @ [Lock RegistryMutex, Unlock RegistryMutex, Lock (CollectionMutex m),
                     MkdirAll dir', WriteFile tmp (b @ [CHR 0x0A]),
                     Unlock (CollectionMutex m)]) \<and>
     (\<forall>fs1 b fs2. os_MkdirAll (files s) dir' = Inr fs1 \<and>
              MarshalIndent cdc v [] [CHR 0x09] = Inr b \<and>
              ioutil_WriteFile fs1 tmp (b @ [CHR 0x0A]) = Inr fs2 \<longrightarrow>
        trace (snd (Write cdc collection resource v s)) =
          trace s @ [Lock RegistryMutex, Unlock RegistryMutex, Lock (CollectionMutex m),
                     MkdirAll dir', WriteFile tmp (b @ [CHR 0x0A]), Rename tmp fnl,
                     Unlock (CollectionMutex m)] \<and>
        (node_at fs1 fnl = Some Dir \<longrightarrow>
           fst (Write cdc collection resource v s) = Inl (LinkError ''rename'' tmp fnl EEXIST) \<and>
           files (snd (Write cdc collection resource v s)) = fs2) \<and>
        (node_at fs1 fnl \<noteq> Some Dir \<longrightarrow>
           fst (Write cdc collection resource v s) = Inr () \<and>
           map_of (files (snd (Write cdc collection resource v s))) fnl = Some (Regular (b @ [CHR 0x0A])) \<and>
           map_of (files (snd (Write cdc collection resource v s))) tmp = None \<and>
           (\<forall>q. q \<noteq> fnl \<and> q \<noteq> tmp \<longrightarrow>
              map_of (files (snd (Write cdc collection resource v s))) q = map_of fs1 q)))"
proof (intro conjI allI impI)
  {
    fix e assume e: "os_MkdirAll (files s) dir' = Inl e"
    note W = Write_mkdir_failed[OF assms(1,2) e[unfolded assms(3)], of cdc v]
    show "fst (Write cdc collection resource v s) = Inl e"
      and "files (snd (Write cdc collection resource v s)) = files s"
      and "trace (snd (Write cdc collection resource v s)) =
            trace s @ [Lock RegistryMutex, Unlock RegistryMutex, Lock (CollectionMutex m),
                       MkdirAll dir', Unlock (CollectionMutex m)]"
      unfolding W by (simp_all add: assms(3,6))
  }
  {
    fix fs1 e assume h: "os_MkdirAll (files s) dir' = Inr fs1 \<and> MarshalIndent cdc v [] [CHR 0x09] = Inl e"
    then have mk: "os_MkdirAll (files s) (Join [dir s, collection]) = Inr fs1"
      and e: "MarshalIndent cdc v [] [CHR 0x09] = Inl e" by (simp_all add: assms(3))
    note W = Write_marshal_failed[OF assms(1,2) mk e]
    show "fst (Write cdc collection resource v s) = Inl e"
      and "files (snd (Write cdc collection resource v s)) = fs1"
      and "trace (snd (Write cdc collection resource v s)) =
            trace s @ [Lock RegistryMutex, Unlock RegistryMutex, Lock (CollectionMutex m),
                       MkdirAll dir', Unlock (CollectionMutex m)]"
      unfolding W by (simp_all add: assms(3,6))
  }
  {
    fix fs1 b e
    assume h: "os_MkdirAll (files s) dir' = Inr fs1 \<and> MarshalIndent cdc v [] [CHR 0x09] = Inr b \<and>
               ioutil_WriteFile fs1 tmp (b @ [CHR 0x0A]) = Inl e"
    then have mk: "os_MkdirAll (files s) (Join [dir s, collection]) = Inr fs1"
      and mb: "MarshalIndent cdc v [] [CHR 0x09] = Inr b"
      and wf: "ioutil_WriteFile fs1 (Join [Join [dir s, collection], resource @ ''.json''] @ ''.tmp'')
                 (b @ [CHR 0x0A]) = Inl e"
      by (simp_all add: assms(3,4,5))
    note W = Write_tmp_failed[OF assms(1,2) mk mb wf]
    show "fst (Write cdc collection resource v s) = Inl e"
      and "files (snd (Write cdc collection resource v s)) = fs1"
      and "trace (snd (Write cdc collection resource v s)) =
            trace s @ [Lock RegistryMutex, Unlock RegistryMutex, Lock (CollectionMutex m),
                       MkdirAll dir', WriteFile tmp (b @ [CHR 0x0A]),
                       Unlock (CollectionMutex m)]"
      unfolding W by (simp_all add: assms(3,4,5,6))
  }
  fix fs1 b fs2
  assume h: "os_MkdirAll (files s) dir' = Inr fs1 \<and> MarshalIndent cdc v [] [CHR 0x09] = Inr b \<and>
             ioutil_WriteFile fs1 tmp (b @ [CHR 0x0A]) = Inr fs2"
  then have mk: "os_MkdirAll (files s) (Join [dir s, collection]) = Inr fs1"
    and mb: "MarshalIndent cdc v [] [CHR 0x09] = Inr b"
    and wf: "ioutil_WriteFile fs1 (fnl @ ''.tmp'') (b @ [CHR 0x0A]) = Inr fs2"
    by (simp_all add: assms(3,5))
  note W = Write_renaming[OF assms(1,2) mk mb wf[unfolded assms(4) assms(3)]]
  note R = Rename_tmp[OF wf]
  show "trace (snd (Write cdc collection resource v s)) =
          trace s @ [Lock RegistryMutex, Unlock RegistryMutex, Lock (CollectionMutex m),
                     MkdirAll dir', WriteFile tmp (b @ [CHR 0x0A]), Rename tmp fnl,
                     Unlock (CollectionMutex m)]"
    unfolding W by (simp add: assms(3,4,5,6))
  {
    assume d: "node_at fs1 fnl = Some Dir"
    from R d have r: "os_Rename fs2 (fnl @ ''.tmp'') fnl = Inl (LinkError ''rename'' (fnl @ ''.tmp'') fnl EEXIST)"
      by simp
    show "fst (Write cdc collection resource v s) = Inl (LinkError ''rename'' tmp fnl EEXIST)"
      and "files (snd (Write cdc collection resource v s)) = fs2"
      unfolding W using r[unfolded assms(4) assms(3)] by (simp_all add: assms(3,4,5))
  }
  {
    assume d: "node_at fs1 fnl \<noteq> Some Dir"
    from R d obtain fs3 where r: "os_Rename fs2 (fnl @ ''.tmp'') fnl = Inr fs3" by simp
    note P = Rename_tmp_result[OF wf r]
    have f: "files (snd (Write cdc collection resource v s)) = fs3"
      and ok: "fst (Write cdc collection resource v s) = Inr ()"
      unfolding W using r[unfolded assms(4) assms(3)] by simp_all
    show "fst (Write cdc collection resource v s) = Inr ()" by (rule ok)
    show "map_of (files (snd (Write cdc collection resource v s))) fnl = Some (Regular (b @ [CHR 0x0A]))"
      unfolding f by (rule P(1))
    show "map_of (files (snd (Write cdc collection resource v s))) tmp = None"
      unfolding f assms(5) by (rule P(2))
    fix q assume "q \<noteq> fnl \<and> q \<noteq> tmp"
    then show "map_of (files (snd (Write cdc collection resource v s))) q = map_of fs1 q"
      unfolding f using P(3)[of q] by (simp add: assms(5))
  }
qed

theorem C1_Write_witness:
  "''Users'' \<noteq> [] \<and> ''c'' \<noteq> [] \<and>
   os_MkdirAll (files users_state) (Join [dir users_state, ''Users'']) = Inr (files users_state) \<and>
   MarshalIndent doc_codec DChan [] [CHR 0x09] = Inl (JsonError ''json: unsupported type: chan int'') \<and>
   fst (Write doc_codec ''Users'' ''c'' DChan users_state) = Inl (JsonError ''json: unsupported type: chan int'') \<and>
   files (snd (Write doc_codec ''Users'' ''c'' DChan users_state)) = files users_state \<and>
   MarshalIndent doc_codec DFalse [] [CHR 0x09] = Inr ''false'' \<and>
   ioutil_WriteFile (files users_state) ''/db/Users/c.json.tmp'' (''false'' @ [CHR 0x0A]) =
     Inr (files users_state @ [(''/db/Users/c.json.tmp'', Regular (''false'' @ [CHR 0x0A]))]) \<and>
   node_at (files users_state) ''/db/Users/c.json'' \<noteq> Some Dir \<and>
   fst (Write doc_codec ''Users'' ''c'' DFalse users_state) = Inr () \<and>
   map_of (files (snd (Write doc_codec ''Users'' ''c'' DFalse users_state))) ''/db/Users/c.json''
     = Some (Regular (''false'' @ [CHR 0x0A])) \<and>
   map_of (files (snd (Write doc_codec ''Users'' ''c'' DFalse users_state))) ''/db/Users/c.json.tmp'' = None \<and>
   trace (snd (Write doc_codec ''Users'' ''c'' DFalse users_state)) =
     [Lock RegistryMutex, Unlock RegistryMutex, Lock (CollectionMutex 0), MkdirAll ''/db/Users'',
      WriteFile ''/db/Users/c.json.tmp'' (''false'' @ [CHR 0x0A]),
      Rename ''/db/Users/c.json.tmp'' ''/db/Users/c.json'', Unlock (CollectionMutex 0)] \<and>
   os_MkdirAll (files users_state) (Join [dir users_state, ''Users/a.json'']) =
     Inl (PathError ''mkdir'' ''/db/Users/a.json'' ENOTDIR) \<and>
   fst (Write doc_codec ''Users/a.json'' ''c'' DFalse users_state) =
     Inl (PathError ''mkdir'' ''/db/Users/a.json'' ENOTDIR) \<and>
   files (snd (Write doc_codec ''Users/a.json'' ''c'' DFalse users_state)) = files users_state \<and>
   ''x/y'' \<noteq> [] \<and>
   ioutil_WriteFile (files users_state) ''/db/Users/x/y.json.tmp'' (''false'' @ [CHR 0x0A]) =
     Inl (PathError ''open'' ''/db/Users/x/y.json.tmp'' ENOENT) \<and>
   fst (Write doc_codec ''Users'' ''x/y'' DFalse users_state) =
     Inl (PathError ''open'' ''/db/Users/x/y.json.tmp'' ENOENT) \<and>
   files (snd (Write doc_codec ''Users'' ''x/y'' DFalse users_state)) = files users_state"
proof -
  have c: "''Users'' \<noteq> []" and r: "''c'' \<noteq> []" and c2: "''Users/a.json'' \<noteq> []"
    and r2: "''x/y'' \<noteq> []" by simp_all
  have p1: "''/db/Users'' = Join [dir users_state, ''Users'']" by code_simp
  have p2: "''/db/Users/c.json'' = Join [''/db/Users'', ''c'' @ ''.json'']" by code_simp
  have p3: "''/db/Users/c.json.tmp'' = ''/db/Users/c.json'' @ ''.tmp''" by simp
  have p4: "0 = fst (getOrCreateMutex ''Users'' users_state)" by code_simp
  have p5: "os_MkdirAll (files users_state) ''/db/Users'' = Inr (files users_state)" by code_simp
  have q1: "''/db/Users/a.json'' = Join [dir users_state, ''Users/a.json'']" by code_simp
  have q2: "''/db/Users/a.json/c.json'' = Join [''/db/Users/a.json'', ''c'' @ ''.json'']" by code_simp
  have q3: "''/db/Users/a.json/c.json.tmp'' = ''/db/Users/a.json/c.json'' @ ''.tmp''" by simp
  have q4: "1 = fst (getOrCreateMutex ''Users/a.json'' users_state)" by code_simp
  have q5: "os_MkdirAll (files users_state) ''/db/Users/a.json'' =
     Inl (PathError ''mkdir'' ''/db/Users/a.json'' ENOTDIR)" by code_simp
  have y2: "''/db/Users/x/y.json'' = Join [''/db/Users'', ''x/y'' @ ''.json'']" by code_simp
  have y3: "''/db/Users/x/y.json.tmp'' = ''/db/Users/x/y.json'' @ ''.tmp''" by simp
  have y5: "ioutil_WriteFile (files users_state) ''/db/Users/x/y.json.tmp'' (''false'' @ [CHR 0x0A]) =
     Inl (PathError ''open'' ''/db/Users/x/y.json.tmp'' ENOENT)" by code_simp
  have m1: "MarshalIndent doc_codec DChan [] [CHR 0x09] = Inl (JsonError ''json: unsupported type: chan int'')"
    by (simp add: doc_codec_def)
  have m2: "MarshalIndent doc_codec DFalse [] [CHR 0x09] = Inr ''false''"
    by (simp add: doc_codec_def)
  have w: "ioutil_WriteFile (files users_state) ''/db/Users/c.json.tmp'' (''false'' @ [CHR 0x0A]) =
     Inr (files users_state @ [(''/db/Users/c.json.tmp'', Regular (''false'' @ [CHR 0x0A]))])"
    by code_simp
  have nd: "node_at (files users_state) ''/db/Users/c.json'' \<noteq> Some Dir" by code_simp
  have t: "trace users_state = []" by (simp add: users_state_def)
  note B1 = C1_Write_stages_then_renames [OF c r p1 p2 p3 p4, of doc_codec DChan,
      THEN conjunct2, THEN conjunct1, rule_format, OF conjI [OF p5 m1]]
  note D2 = C1_Write_stages_then_renames [OF c r p1 p2 p3 p4, of doc_codec DFalse,
      THEN conjunct2, THEN conjunct2, THEN conjunct2, rule_format, OF conjI [OF p5 conjI [OF m2 w]]]
  note A3 = C1_Write_stages_then_renames [OF c2 r q1 q2 q3 q4, of doc_codec DFalse,
      THEN conjunct1, rule_format, OF q5]
  note C4 = C1_Write_stages_then_renames [OF c r2 p1 y2 y3 p4, of doc_codec DFalse,
      THEN conjunct2, THEN conjunct2, THEN conjunct1, rule_format, OF conjI [OF p5 conjI [OF m2 y5]]]
  have a1: "fst (Write doc_codec ''Users'' ''c'' DChan users_state) = Inl (JsonError ''json: unsupported type: chan int'')"
    and a2: "files (snd (Write doc_codec ''Users'' ''c'' DChan users_state)) = files users_state"
    using B1 by simp_all
  have b: "fst (Write doc_codec ''Users'' ''c'' DFalse users_state) = Inr () \<and>
     map_of (files (snd (Write doc_codec ''Users'' ''c'' DFalse users_state))) ''/db/Users/c.json''
       = Some (Regular (''false'' @ [CHR 0x0A])) \<and>
     map_of (files (snd (Write doc_codec ''Users'' ''c'' DFalse users_state))) ''/db/Users/c.json.tmp'' = None \<and>
     trace (snd (Write doc_codec ''Users'' ''c'' DFalse users_state)) =
       trace users_state @ [Lock RegistryMutex, Unlock RegistryMutex, Lock (CollectionMutex 0), MkdirAll ''/db/Users'',
        WriteFile ''/db/Users/c.json.tmp'' (''false'' @ [CHR 0x0A]),
        Rename ''/db/Users/c.json.tmp'' ''/db/Users/c.json'', Unlock (CollectionMutex 0)]"
    using D2 nd by simp
  have e1: "fst (Write doc_codec ''Users/a.json'' ''c'' DFalse users_state) =
       Inl (PathError ''mkdir'' ''/db/Users/a.json'' ENOTDIR)"
    and e2: "files (snd (Write doc_codec ''Users/a.json'' ''c'' DFalse users_state)) = files users_state"
    using A3 by simp_all
  have g1: "fst (Write doc_codec ''Users'' ''x/y'' DFalse users_state) =
       Inl (PathError ''open'' ''/db/Users/x/y.json.tmp'' ENOENT)"
    and g2: "files (snd (Write doc_codec ''Users'' ''x/y'' DFalse users_state)) = files users_state"
    using C4 by simp_all
  show ?thesis using p1 p5 q1 q5 y5 m1 m2 w nd a1 a2 b e1 e2 g1 g2 t by simp
qed

text \<open>
  C1 as stated fails where a file-system step before the rename fails. The value \<open>true\<close>
  is serializable and both names are non-empty, but with a collection whose path runs
  through the regular file \<open>a.json\<close> the directory cannot be made, and with a resource
  in a subdirectory that does not exist the temporary file cannot be written: in both
  runs \<open>Write\<close> returns the error, the file system is unchanged (the failed call is
  recorded) and nothing is renamed.
\<close>

theorem C1_counterexample:
  "MarshalIndent doc_codec DTrue [] [CHR 0x09] = Inr ''true'' \<and>
   Write doc_codec ''Users/a.json'' ''x'' DTrue users_state =
     (Inl (PathError ''mkdir'' ''/db/Users/a.json'' ENOTDIR),
      users_state\<lparr>mutexes := [(''Users/a.json'', 1), (''Users'', 0)], allocated := 2,
        trace := [Lock RegistryMutex, Unlock RegistryMutex, Lock (CollectionMutex 1),
                  MkdirAll ''/db/Users/a.json'', Unlock (CollectionMutex 1)]\<rparr>) \<and>
   Write doc_codec ''Users'' ''x/y'' DTrue users_state =
     (Inl (PathError ''open'' ''/db/Users/x/y.json.tmp'' ENOENT),
      users_state\<lparr>trace := [Lock RegistryMutex, Unlock RegistryMutex, Lock (CollectionMutex 0),
                  MkdirAll ''/db/Users'',
                  WriteFile ''/db/Users/x/y.json.tmp'' (''true'' @ [CHR 0x0A]),
                  Unlock (CollectionMutex 0)]\<rparr>)"
  by code_simp

text \<open>
  C2, as the code has it. Take a non-empty collection, a resource whose last path element
  is a file name (not empty, \<open>.\<close> or \<open>..\<close>), a value that is serialized to the bytes
  \<open>b\<close>, and a target \<open>out\<close> into which the written bytes decode to that value. If
  \<open>Write\<close> succeeds, then \<open>Read\<close> of the same collection and resource in the state it
  leaves succeeds and yields the value.
\<close>

theorem C2_Read_returns_what_Write_wrote:
  assumes "collection \<noteq> []" and "file_name resource"
    and "MarshalIndent cdc v [] [CHR 0x09] = Inr b"
    and "Unmarshal cdc (b @ [CHR 0x0A]) out = Inr v"
    and "fst (Write cdc collection resource v s) = Inr ()"
  shows "fst (Read cdc collection resource out (snd (Write cdc collection resource v s))) = Inr v"
proof -
  let ?D = "Join [dir s, collection]"
  let ?fnl = "Join [?D, resource @ ''.json'']"
  let ?tmp = "?fnl @ ''.tmp''"
  let ?data = "b @ [CHR 0x0A]"
  let ?s' = "snd (Write cdc collection resource v s)"
  have r: "resource \<noteq> []" using assms(2) by (rule file_name_nonempty)
  obtain fs1 where mk: "os_MkdirAll (files s) ?D = Inr fs1"
    using assms(5) Write_mkdir_failed[OF assms(1) r, of s _ cdc v]
    by (cases "os_MkdirAll (files s) ?D") auto
  obtain fs2 where wf: "ioutil_WriteFile fs1 ?tmp ?data = Inr fs2"
    using assms(5) Write_tmp_failed[OF assms(1) r mk assms(3)]
    by (cases "ioutil_WriteFile fs1 ?tmp ?data") auto
  note W = Write_renaming[OF assms(1) r mk assms(3) wf]
  obtain fs3 where rn: "os_Rename fs2 ?tmp ?fnl = Inr fs3"
    using assms(5) unfolding W by (cases "os_Rename fs2 ?tmp ?fnl") auto
  have f': "files ?s' = fs3" and d': "dir ?s' = dir s"
    unfolding W using rn by simp_all
  note P = Rename_tmp_result[OF wf rn]
  have path: "Join [dir s, collection, resource] @ ''.json'' = ?fnl"
    using Join_suffix[OF assms(1,2), of "dir s"] Join_Join[OF assms(1), of "dir s" "resource @ ''.json''"]
    by simp
  have js: "os_Stat (files ?s') (Join [dir ?s', collection, resource] @ ''.json'') =
              Inr (file_info ?fnl (Regular ?data))"
    unfolding f' d' path using P(4,5) by (simp add: os_Stat_Inr_iff)
  from stat_json_exists[OF js] obtain fi' s1
    where st: "stat (Join [dir ?s', collection, resource]) ?s' = (Inr fi', s1)"
      and f1: "files s1 = files ?s'" by blast
  have rd: "ioutil_ReadFile (files ?s') (Join [dir ?s', collection, resource] @ ''.json'') = Inr ?data"
    unfolding f' d' path using P(4,5) by (intro ReadFile_regular)
  from Read_found[OF assms(1) r st f1 rd, of cdc out] assms(4) show ?thesis by simp
qed

theorem C2_round_trip_witness:
  "''Users'' \<noteq> [] \<and> file_name ''c'' \<and>
   MarshalIndent doc_codec DFalse [] [CHR 0x09] = Inr ''false'' \<and>
   Unmarshal doc_codec (''false'' @ [CHR 0x0A]) DNull = Inr DFalse \<and>
   fst (Write doc_codec ''Users'' ''c'' DFalse users_state) = Inr () \<and>
   fst (Read doc_codec ''Users'' ''c'' DNull (snd (Write doc_codec ''Users'' ''c'' DFalse users_state)))
     = Inr DFalse"
proof -
  have c: "''Users'' \<noteq> []" by simp
  have r: "file_name ''c''" by code_simp
  have m: "MarshalIndent doc_codec DFalse [] [CHR 0x09] = Inr ''false''" by (simp add: doc_codec_def)
  have u: "Unmarshal doc_codec (''false'' @ [CHR 0x0A]) DNull = Inr DFalse" by (simp add: doc_codec_def)
  have w: "fst (Write doc_codec ''Users'' ''c'' DFalse users_state) = Inr ()" by code_simp
  show ?thesis
    using C2_Read_returns_what_Write_wrote [OF c r m u w] r m u w by simp
qed

text \<open>
  C2 as stated fails for the resource \<open>.\<close>. The serializable value \<open>true\<close> is written
  with success to the file \<open>/db/Users/..json\<close>, since \<open>Write\<close> appends the suffix before
  it joins; \<open>Read\<close> joins first, so the resource \<open>.\<close> disappears from the path, and
  it looks for \<open>/db/Users.json\<close>, which does not exist.
\<close>

theorem C2_counterexample:
  "MarshalIndent doc_codec DTrue [] [CHR 0x09] = Inr ''true'' \<and>
   Unmarshal doc_codec (''true'' @ [CHR 0x0A]) DNull = Inr DTrue \<and>
   fst (Write doc_codec ''Users'' ''.'' DTrue users_state) = Inr () \<and>
   map_of (files (snd (Write doc_codec ''Users'' ''.'' DTrue users_state))) ''/db/Users/..json''
     = Some (Regular (''true'' @ [CHR 0x0A])) \<and>
   fst (Read doc_codec ''Users'' ''.'' DNull (snd (Write doc_codec ''Users'' ''.'' DTrue users_state)))
     = Inl (PathError ''open'' ''/db/Users.json'' ENOENT)"
  by code_simp

text \<open>
  C3. The claim is that \<open>Update\<close> never creates a resource. The code checks the final
  path with the path-resolution helper, which also accepts the path with \<open>.json\<close>
  appended once more. In \<open>suffix_state\<close> the file \<open>/db/Users/a.json\<close> does not exist but
  \<open>/db/Users/a.json.json\<close> does: \<open>Update("Users", "a", false)\<close> returns success and
  creates \<open>/db/Users/a.json\<close>.
\<close>

theorem C3_Update_creates_resource:
  "os_Stat (files suffix_state) ''/db/Users/a.json'' = Inl (PathError ''stat'' ''/db/Users/a.json'' ENOENT) \<and>
   Update doc_codec ''Users'' ''a'' DFalse suffix_state =
     (Inr (),
      suffix_state\<lparr>files := [(''/db'', Dir), (''/db/Users'', Dir),
                              (''/db/Users/a.json.json'', Regular (''true'' @ [CHR 0x0A])),
                              (''/db/Users/a.json'', Regular (''false'' @ [CHR 0x0A]))],
        trace := [Lock RegistryMutex, Unlock RegistryMutex, Lock (CollectionMutex 0),
                  Stat ''/db/Users/a.json'', Stat ''/db/Users/a.json.json'',
                  WriteFile ''/db/Users/a.json'' (''false'' @ [CHR 0x0A]),
                  Unlock (CollectionMutex 0)]\<rparr>)"
  by code_simp

text \<open>
  C4, as the code has it. Path resolution checks the path itself first. When that check
  succeeds, the file-info of the path is the result and nothing else is checked. When it
  fails with a not-exist error, and only then, the path with \<open>.json\<close> appended is
  checked, and that second check gives the result: the file-info of the \<open>.json\<close> path,
  or its not-found error when neither exists. When the first check fails in another way,
  which it does exactly when the path runs through a file that is not a directory, that
  first error is the result and no second check is made. The file system is not changed.
\<close>

theorem C4_stat_checks_path_then_json:
  "files (snd (stat path s)) = files s \<and>
   (\<forall>fi. os_Stat (files s) path = Inr fi \<longrightarrow> stat path s = (Inr fi, emit (Stat path) s)) \<and>
   (\<forall>e. os_Stat (files s) path = Inl e \<and> IsNotExist e \<longrightarrow>
      stat path s = (os_Stat (files s) (path @ ''.json''),
                     emit (Stat (path @ ''.json'')) (emit (Stat path) s))) \<and>
   (\<forall>e. os_Stat (files s) path = Inl e \<and> \<not> IsNotExist e \<longrightarrow>
      stat path s = (Inl e, emit (Stat path) s)) \<and>
   (Stat (path @ ''.json'') \<in> set (drop (length (trace s)) (trace (snd (stat path s))))
      \<longleftrightarrow> (\<exists>e. os_Stat (files s) path = Inl e \<and> IsNotExist e)) \<and>
   ((\<exists>e. os_Stat (files s) path = Inl e \<and> \<not> IsNotExist e)
      \<longleftrightarrow> walk (files s) (ancestors path) = Some ENOTDIR)"
proof (cases "os_Stat (files s) path")
  case (Inr fi)
  then show ?thesis using os_Stat_other_error[of "files s" path] by (simp add: stat_found)
next
  case (Inl e)
  show ?thesis
  proof (cases "IsNotExist e")
    case True
    with Inl show ?thesis using os_Stat_other_error[of "files s" path] by (simp add: stat_fallback)
  next
    case False
    with Inl show ?thesis using os_Stat_other_error[of "files s" path] by (simp add: stat_other)
  qed
qed

theorem C4_stat_witness:
  "os_Stat (files users_state) ''/db/Users/a'' = Inl (PathError ''stat'' ''/db/Users/a'' ENOENT) \<and>
   IsNotExist (PathError ''stat'' ''/db/Users/a'' ENOENT) \<and>
   stat ''/db/Users/a'' users_state =
     (Inr (FileInfo ''a.json'' ModeRegular),
      emit (Stat ''/db/Users/a.json'') (emit (Stat ''/db/Users/a'') users_state)) \<and>
   os_Stat (files users_state) ''/db/Users/b.json'' = Inr (FileInfo ''b.json'' ModeRegular) \<and>
   stat ''/db/Users/b.json'' users_state =
     (Inr (FileInfo ''b.json'' ModeRegular), emit (Stat ''/db/Users/b.json'') users_state) \<and>
   os_Stat (files users_state) ''/db/Users/a.json/x'' =
     Inl (PathError ''stat'' ''/db/Users/a.json/x'' ENOTDIR) \<and>
   \<not> IsNotExist (PathError ''stat'' ''/db/Users/a.json/x'' ENOTDIR) \<and>
   stat ''/db/Users/a.json/x'' users_state =
     (Inl (PathError ''stat'' ''/db/Users/a.json/x'' ENOTDIR),
      emit (Stat ''/db/Users/a.json/x'') users_state) \<and>
   os_Stat (files users_state) ''/db/Logs'' = Inl (PathError ''stat'' ''/db/Logs'' ENOENT) \<and>
   stat ''/db/Logs'' users_state =
     (Inl (PathError ''stat'' ''/db/Logs.json'' ENOENT),
      emit (Stat ''/db/Logs.json'') (emit (Stat ''/db/Logs'') users_state))"
proof -
  have a: "os_Stat (files users_state) ''/db/Users/a'' = Inl (PathError ''stat'' ''/db/Users/a'' ENOENT)"
    by code_simp
  have a': "os_Stat (files users_state) (''/db/Users/a'' @ ''.json'') = Inr (FileInfo ''a.json'' ModeRegular)"
    by code_simp
  have b: "os_Stat (files users_state) ''/db/Users/b.json'' = Inr (FileInfo ''b.json'' ModeRegular)"
    by code_simp
  have c: "os_Stat (files users_state) ''/db/Users/a.json/x'' =
     Inl (PathError ''stat'' ''/db/Users/a.json/x'' ENOTDIR)"
    by code_simp
  have d: "os_Stat (files users_state) ''/db/Logs'' = Inl (PathError ''stat'' ''/db/Logs'' ENOENT)"
    by code_simp
  have d': "os_Stat (files users_state) (''/db/Logs'' @ ''.json'') =
     Inl (PathError ''stat'' ''/db/Logs.json'' ENOENT)"
    by code_simp
  show ?thesis
    using C4_stat_checks_path_then_json [of "''/db/Users/a''" users_state]
      C4_stat_checks_path_then_json [of "''/db/Users/b.json''" users_state]
      C4_stat_checks_path_then_json [of "''/db/Users/a.json/x''" users_state]
      C4_stat_checks_path_then_json [of "''/db/Logs''" users_state] a a' b c d d'
    by simp
qed

text \<open>
  C4 as stated fails for a path that runs through a regular file. In \<open>users_state\<close>
  neither \<open>/db/Users/a.json/x\<close> nor \<open>/db/Users/a.json/x.json\<close> exists, yet the helper
  makes one check only: the first one fails with \<open>ENOTDIR\<close>, which is not a not-exist
  error, and that error is returned, not a not-found error from a second check.
\<close>

theorem C4_counterexample:
  "map_of (files users_state) ''/db/Users/a.json/x'' = None \<and>
   map_of (files users_state) ''/db/Users/a.json/x.json'' = None \<and>
   IsNotExist (PathError ''stat'' ''/db/Users/a.json/x'' ENOTDIR) = False \<and>
   stat ''/db/Users/a.json/x'' users_state =
     (Inl (PathError ''stat'' ''/db/Users/a.json/x'' ENOTDIR),
      users_state\<lparr>trace := [Stat ''/db/Users/a.json/x'']\<rparr>)"
  by code_simp




text \<open>
  C6. The claim is that \<open>ReadAll\<close> fails when the directory cannot be enumerated. The
  code drops the error of \<open>ioutil.ReadDir\<close>. In \<open>users_state\<close> the collection
  \<open>Users/a\<close> passes path resolution because the file \<open>/db/Users/a.json\<close> exists, the
  enumeration of \<open>/db/Users/a\<close> fails, and \<open>ReadAll\<close> returns an empty sequence and no
  error.
\<close>

theorem C6_ReadAll_drops_ReadDir_error:
  "ioutil_ReadDir (files users_state) ''/db/Users/a'' = Inl (PathError ''open'' ''/db/Users/a'' ENOENT) \<and>
   ReadAll ''Users/a'' users_state =
     (Inr [],
      users_state\<lparr>trace := [Stat ''/db/Users/a'', Stat ''/db/Users/a.json'',
                              ReadDir ''/db/Users/a'']\<rparr>)"
  by code_simp

text \<open>
  C7. For a resource whose file exists and a serializable value, \<open>Update\<close> succeeds and
  makes exactly one file-system change: it writes the encoded value followed by a newline
  to the final path itself, which is the path \<open>Write\<close> renames onto. It makes no call
  on a temporary file and no rename. The bytes are the ones \<open>Write\<close> produces: every
  write of a file that \<open>Write\<close> makes for the same value, from any state, carries
  these bytes (and goes to the temporary path).
\<close>

theorem C7_Update_same_bytes_in_place:
  assumes "collection \<noteq> []" and "resource \<noteq> []"
    and "MarshalIndent cdc v [] [CHR 0x09] = Inr b"
    and "fnl = Join [Join [dir s, collection], resource @ ''.json'']"
    and "os_Stat (files s) fnl = Inr fi" and "IsRegular (Mode fi)"
    and "m = fst (getOrCreateMutex collection s)"
  shows
    "fst (Update cdc collection resource v s) = Inr () \<and>
     files (snd (Update cdc collection resource v s)) =
       AList.update fnl (Regular (b @ [CHR 0x0A])) (files s) \<and>
     trace (snd (Update cdc collection resource v s)) =
       trace s @ [Lock RegistryMutex, Unlock RegistryMutex, Lock (CollectionMutex m),
                  Stat fnl, WriteFile fnl (b @ [CHR 0x0A]), Unlock (CollectionMutex m)] \<and>
     (\<forall>s0 p data.
        WriteFile p data \<in> set (drop (length (trace s0)) (trace (snd (Write cdc collection resource v s0))))
        \<longrightarrow> data = b @ [CHR 0x0A] \<and>
            p = Join [Join [dir s0, collection], resource @ ''.json''] @ ''.tmp'')"
proof -
  let ?s1 = "entered collection s"
  have path: "Join [dir s, collection, resource @ ''.json''] = fnl"
    using Join_Join[OF assms(1), of "dir s" "resource @ ''.json''"] assms(4) by simp
  obtain old where reg: "walk (files s) (ancestors fnl) = None" "node_at (files s) fnl = Some (Regular old)"
    using assms(5,6) by (auto simp: os_Stat_Inr_iff)
  have wr: "ioutil_WriteFile (files s) fnl (b @ [CHR 0x0A]) = Inr (AList.update fnl (Regular (b @ [CHR 0x0A])) (files s))"
    using reg by (rule WriteFile_regular)
  have st: "stat fnl ?s1 = (Inr fi, emit (Stat fnl) ?s1)"
    using assms(5) by (simp add: stat_found)
  have U: "Update cdc collection resource v s =
     (Inr (), emit (Unlock (CollectionMutex (fst (getOrCreateMutex collection s))))
        (emit (WriteFile fnl (b @ [CHR 0x0A]))
          ((emit (Stat fnl) ?s1)\<lparr>files := AList.update fnl (Regular (b @ [CHR 0x0A])) (files s)\<rparr>)))"
    unfolding Update_def locked_entered Let_def
    using assms(1,2,3) wr by (simp add: path st sys_write_ok)
  have W: "\<And>s0 p data.
        WriteFile p data \<in> set (drop (length (trace s0)) (trace (snd (Write cdc collection resource v s0))))
        \<Longrightarrow> data = b @ [CHR 0x0A] \<and> p = Join [Join [dir s0, collection], resource @ ''.json''] @ ''.tmp''"
    using Write_WriteFile_events[OF assms(1,2,3)] by blast
  show ?thesis unfolding U using W assms(7) by simp
qed

theorem C7_Update_witness:
  "''Users'' \<noteq> [] \<and> ''a'' \<noteq> [] \<and>
   MarshalIndent doc_codec DFalse [] [CHR 0x09] = Inr ''false'' \<and>
   os_Stat (files users_state) ''/db/Users/a.json'' = Inr (FileInfo ''a.json'' ModeRegular) \<and>
   IsRegular (Mode (FileInfo ''a.json'' ModeRegular)) \<and>
   fst (Update doc_codec ''Users'' ''a'' DFalse users_state) = Inr () \<and>
   files (snd (Update doc_codec ''Users'' ''a'' DFalse users_state)) =
     [(''/db'', Dir), (''/db/Users'', Dir),
      (''/db/Users/a.json'', Regular (''false'' @ [CHR 0x0A])),
      (''/db/Users/b.json'', Regular (''false'' @ [CHR 0x0A]))] \<and>
   trace (snd (Update doc_codec ''Users'' ''a'' DFalse users_state)) =
     [Lock RegistryMutex, Unlock RegistryMutex, Lock (CollectionMutex 0),
      Stat ''/db/Users/a.json'', WriteFile ''/db/Users/a.json'' (''false'' @ [CHR 0x0A]),
      Unlock (CollectionMutex 0)] \<and>
   WriteFile ''/db/Users/a.json.tmp'' (''false'' @ [CHR 0x0A])
     \<in> set (drop (length (trace users_state)) (trace (snd (Write doc_codec ''Users'' ''a'' DFalse users_state))))"
proof -
  have c: "''Users'' \<noteq> []" and r: "''a'' \<noteq> []" by simp_all
  have mb: "MarshalIndent doc_codec DFalse [] [CHR 0x09] = Inr ''false''" by (simp add: doc_codec_def)
  have p: "''/db/Users/a.json'' = Join [Join [dir users_state, ''Users''], ''a'' @ ''.json'']" by code_simp
  have st: "os_Stat (files users_state) ''/db/Users/a.json'' = Inr (FileInfo ''a.json'' ModeRegular)" by code_simp
  have rg: "IsRegular (Mode (FileInfo ''a.json'' ModeRegular))" by simp
  have m: "0 = fst (getOrCreateMutex ''Users'' users_state)" by code_simp
  have t: "trace users_state = []" by (simp add: users_state_def)
  have u: "AList.update ''/db/Users/a.json'' (Regular (''false'' @ [CHR 0x0A])) (files users_state) =
     [(''/db'', Dir), (''/db/Users'', Dir),
      (''/db/Users/a.json'', Regular (''false'' @ [CHR 0x0A])),
      (''/db/Users/b.json'', Regular (''false'' @ [CHR 0x0A]))]" by code_simp
  have w: "WriteFile ''/db/Users/a.json.tmp'' (''false'' @ [CHR 0x0A])
     \<in> set (drop (length (trace users_state)) (trace (snd (Write doc_codec ''Users'' ''a'' DFalse users_state))))"
    by code_simp
  show ?thesis
    using C7_Update_same_bytes_in_place [OF c r mb p st rg m] mb st w t u by simp
qed

text \<open>
  C8. \<open>Write\<close>, \<open>Read\<close> and \<open>Update\<close> called with an empty collection or an empty
  resource return an invalid-argument error and leave the whole state as it was: no lock
  is taken, the registry of mutexes is not touched and no file-system call is made.
\<close>

theorem C8_empty_argument_rejected_first:
  assumes "collection = [] \<or> resource = []"
  shows "\<exists>e. is_InvalidArgument e \<and>
           Write cdc collection resource v s = (Inl e, s) \<and>
           Read cdc collection resource v s = (Inl e, s) \<and>
           Update cdc collection resource v s = (Inl e, s)"
  using assms by (auto simp: Write_def Read_def Update_def is_InvalidArgument_def)

theorem C8_empty_argument_witness:
  "(''Users'' = [] \<or> ([]::string) = []) \<and>
   (\<exists>e. is_InvalidArgument e \<and>
      Write doc_codec ''Users'' [] DTrue users_state = (Inl e, users_state) \<and>
      Read doc_codec ''Users'' [] DTrue users_state = (Inl e, users_state) \<and>
      Update doc_codec ''Users'' [] DTrue users_state = (Inl e, users_state))"
  using C8_empty_argument_rejected_first [of "''Users''" "[]" doc_codec DTrue users_state]
  by simp







end
